theory Spec2Isabelle
  imports Complex_Main "HOL-Library.Log_Nat"
begin

section \<open>Attendance store and settings\<close>

text \<open>
  The source keeps attendance in the module-level array \<open>mockAttendance\<close> of
  \<open>AttendanceRecord & { student_id: number }\<close> objects and the thresholds in
  \<open>mockSettings\<close>. Nullable strings are \<open>string option\<close>. Of the settings
  object only the two fields read by \<open>executeAttendance\<close> are kept.
\<close>

datatype att_status = Present | Late | Absent | EarlyLeave

record attendance_record =
  student_id :: int
  date :: string
  checkIn :: "string option"
  checkOut :: "string option"
  status :: att_status

record settings =
  lateTime :: string
  checkOutTime :: string

text \<open>The thresholds of \<open>initialSettings\<close>, used when local storage holds none.\<close>

definition initialSettings :: settings where
  "initialSettings = \<lparr>lateTime = ''08:30'', checkOutTime = ''16:00''\<rparr>"

datatype mode = Checkin | Checkout

text \<open>
  \<open>recordAttendance\<close> returns either \<open>{ error: message }\<close> or
  \<open>{ time, status }\<close>. The two error messages are told apart by a constructor; the
  first one interpolates the \<open>checkIn\<close> field of the record that was found, which
  is a string or \<open>null\<close>.
\<close>

datatype commit_error = AlreadyCheckedIn "string option" | NoCheckInFound

datatype commit_result = Recorded string att_status

subsection \<open>String comparison\<close>

text \<open>
  JavaScript's \<open><\<close> on two strings compares them code unit by code unit; a proper
  prefix is smaller. \<open>a > b\<close> is \<open>b < a\<close>.
\<close>

fun str_lt :: "string \<Rightarrow> string \<Rightarrow> bool" where
  "str_lt [] [] = False"
| "str_lt [] (y # ys) = True"
| "str_lt (x # xs) [] = False"
| "str_lt (x # xs) (y # ys) =
     ((of_char x :: nat) < of_char y \<or> (x = y \<and> str_lt xs ys))"

subsection \<open>Array.prototype.findIndex\<close>

text \<open>The index of the first element satisfying the predicate; \<open>None\<close> stands for \<open>-1\<close>.\<close>

fun findIndex :: "('a \<Rightarrow> bool) \<Rightarrow> 'a list \<Rightarrow> nat option" where
  "findIndex P [] = None"
| "findIndex P (x # xs) = (if P x then Some 0 else map_option Suc (findIndex P xs))"

subsection \<open>recordAttendance\<close>

text \<open>
  The callback that \<open>executeAttendance\<close> hands to \<open>apiCall\<close>. The two clock
  readings (\<open>today\<close>, the ISO date, and \<open>timeNow\<close>, the formatted time of day)
  are parameters, the array is passed in and returned. \<open>unshift\<close> puts the new
  record in front. \<open>saveData\<close> mirrors the array into local storage and is left out.
\<close>

definition same_day :: "int \<Rightarrow> string \<Rightarrow> attendance_record \<Rightarrow> bool" where
  "same_day sid today a = (student_id a = sid \<and> date a = today)"

definition computed_status :: "mode \<Rightarrow> settings \<Rightarrow> string \<Rightarrow> att_status" where
  "computed_status m cfg timeNow =
     (let st = Present;
          st = (if m = Checkin \<and> str_lt (lateTime cfg) timeNow then Late else st);
          st = (if m = Checkout \<and> str_lt timeNow (checkOutTime cfg) then EarlyLeave else st)
      in st)"

definition recordAttendance ::
  "mode \<Rightarrow> settings \<Rightarrow> int \<Rightarrow> string \<Rightarrow> string \<Rightarrow> attendance_record list
     \<Rightarrow> (commit_error + commit_result) \<times> attendance_record list" where
  "recordAttendance m cfg sid today timeNow store =
     (let existingRecordIndex = findIndex (same_day sid today) store;
          st = computed_status m cfg timeNow
      in case m of
           Checkin \<Rightarrow>
             (case existingRecordIndex of
                Some i \<Rightarrow> (Inl (AlreadyCheckedIn (checkIn (store ! i))), store)
              | None \<Rightarrow>
                  (Inr (Recorded timeNow st),
                   \<lparr>student_id = sid, date = today, checkIn = Some timeNow,
                    checkOut = None, status = st\<rparr> # store))
         | Checkout \<Rightarrow>
             (case existingRecordIndex of
                Some i \<Rightarrow>
                  (Inr (Recorded timeNow st),
                   store[i := (store ! i)\<lparr>checkOut := Some timeNow,
                              status := (if status (store ! i) \<noteq> Late then st
                                         else status (store ! i))\<rparr>])
              | None \<Rightarrow> (Inl NoCheckInFound, store)))"

subsection \<open>Sequences of commits\<close>

text \<open>
  Commits run one after another on the single UI thread: each \<open>recordAttendance\<close>
  call is one uninterrupted timer callback. An attempt carries everything the callback
  reads: the page's mode, the settings at that moment, the student and the two clock
  readings.
\<close>

record attempt =
  a_mode :: mode
  a_settings :: settings
  a_student :: int
  a_today :: string
  a_timeNow :: string

definition commit :: "attempt \<Rightarrow> attendance_record list \<Rightarrow> attendance_record list" where
  "commit a store =
     snd (recordAttendance (a_mode a) (a_settings a) (a_student a) (a_today a) (a_timeNow a) store)"

definition commits_run :: "attempt list \<Rightarrow> attendance_record list \<Rightarrow> attendance_record list" where
  "commits_run as store = fold commit as store"

definition checked_in :: "int \<Rightarrow> string \<Rightarrow> attendance_record \<Rightarrow> bool" where
  "checked_in sid d a = (student_id a = sid \<and> date a = d \<and> checkIn a \<noteq> None)"

definition checked_in_count :: "int \<Rightarrow> string \<Rightarrow> attendance_record list \<Rightarrow> nat" where
  "checked_in_count sid d store = length (filter (checked_in sid d) store)"

section \<open>The recognition session of AttendancePage\<close>

text \<open>
  One visit of the check-in or check-out screen. The refs of the component are the
  fields of the state: \<open>isProcessingRef\<close>, \<open>recognitionCooldownRef\<close> (an object
  keyed by \<open>student.id.toString()\<close>, here a map keyed by the id). JavaScript runs
  every callback to its end or to its next \<open>await\<close> before any other callback
  starts, so the interval callback of \<open>startDetectionLoop\<close> is two atomic steps
  (up to the awaited \<open>detectAllFaces\<close> call, and from its result on), and each
  \<open>setTimeout\<close> callback is one. The state records what is pending: the number of
  detection calls awaited and the timers of the commits under way. React display state
  (status text, current student, counters, the overlay) is not modelled, and of a
  \<open>Student\<close> only the numeric id (the field \<open>id\<close>), the code and the names are
  kept.
\<close>

record student =
  id_no :: int
  studentId :: string
  firstName :: string
  lastName :: string

text \<open>
  \<open>bestMatch.label\<close> is \<open>'unknown'\<close> or the decimal id the matcher was built
  with; \<open>now\<close> is the \<open>Date.now()\<close> reading taken while the face is handled.
\<close>

datatype match_label = Unknown | Known int

record recognition =
  bestMatch :: match_label
  now :: int

text \<open>
  A commit under way waits for one of three timers in turn: the 500 ms countdown of
  \<open>startFastAttendance\<close>, the 300 ms delay of \<open>apiCall\<close>, and the 2000 ms
  delay at the end of \<open>executeAttendance\<close> that releases the flag.
\<close>

datatype phase = Countdown | ApiCall | Settle

record session =
  isProcessing :: bool
  recognitionCooldown :: "int \<Rightarrow> int option"
  detectionsInFlight :: nat
  timers :: "(student \<times> phase) list"
  mockAttendance :: "attendance_record list"

record page =
  page_mode :: mode
  mockSettings :: settings
  mockStudents :: "student list"

definition initial_session :: "attendance_record list \<Rightarrow> session" where
  "initial_session store =
     \<lparr>isProcessing = False, recognitionCooldown = (\<lambda>k. None), detectionsInFlight = 0,
      timers = [], mockAttendance = store\<rparr>"

definition startFastAttendance :: "student \<Rightarrow> session \<Rightarrow> session" where
  "startFastAttendance st s =
     (if isProcessing s then s
      else s\<lparr>isProcessing := True, timers := timers s @ [(st, Countdown)]\<rparr>)"

text \<open>
  The test \<open>!cooldown[key] || now - cooldown[key] > 8000\<close>. \<open>!x\<close> holds for a
  missing key and also for a stored \<open>0\<close>.
\<close>

definition cooldown_elapsed :: "(int \<Rightarrow> int option) \<Rightarrow> int \<Rightarrow> int \<Rightarrow> bool" where
  "cooldown_elapsed cd key t =
     (case cd key of None \<Rightarrow> True | Some stored \<Rightarrow> stored = 0 \<or> t - stored > 8000)"

text \<open>The body of the loop over \<open>resizedDetections\<close>, for one detected face.\<close>

definition recognized :: "student list \<Rightarrow> recognition \<Rightarrow> session \<Rightarrow> session" where
  "recognized students r s =
     (case bestMatch r of
        Unknown \<Rightarrow> s
      | Known n \<Rightarrow>
          (case find (\<lambda>st. id_no st = n) students of
             None \<Rightarrow> s
           | Some st \<Rightarrow>
               if cooldown_elapsed (recognitionCooldown s) (id_no st) (now r)
               then startFastAttendance st
                      (s\<lparr>recognitionCooldown := (recognitionCooldown s)(id_no st \<mapsto> now r)\<rparr>)
               else s))"

text \<open>
  The interval callback up to its \<open>await\<close>. \<open>ready\<close> stands for the other
  conjuncts of the guard: the library, the video element (neither paused nor ended),
  the matcher and the overlay are there.
\<close>

definition tick_begin :: "bool \<Rightarrow> session \<Rightarrow> session" where
  "tick_begin ready s =
     (if \<not> ready \<or> isProcessing s then s
      else s\<lparr>detectionsInFlight := Suc (detectionsInFlight s)\<rparr>)"

text \<open>The interval callback from the result of \<open>detectAllFaces\<close> on.\<close>

definition tick_resume :: "student list \<Rightarrow> recognition list \<Rightarrow> session \<Rightarrow> session" where
  "tick_resume students ds s =
     fold (recognized students) ds (s\<lparr>detectionsInFlight := detectionsInFlight s - 1\<rparr>)"

text \<open>
  The callbacks of the event loop. A timer event names the commit it belongs to by its
  position in \<open>timers\<close>; an event that is not pending leaves the state as it is.
\<close>

datatype event =
    IntervalFires bool
  | DetectionResolves "recognition list"
  | CountdownElapsed nat
  | ApiCallRuns nat string string
  | SettleElapsed nat

definition in_phase :: "session \<Rightarrow> nat \<Rightarrow> phase \<Rightarrow> bool" where
  "in_phase s i ph = (i < length (timers s) \<and> snd (timers s ! i) = ph)"

fun step :: "page \<Rightarrow> event \<Rightarrow> session \<Rightarrow> session" where
  "step pg (IntervalFires ready) s = tick_begin ready s"
| "step pg (DetectionResolves ds) s =
     (if detectionsInFlight s = 0 then s else tick_resume (mockStudents pg) ds s)"
| "step pg (CountdownElapsed i) s =
     (if in_phase s i Countdown
      then s\<lparr>timers := (timers s)[i := (fst (timers s ! i), ApiCall)]\<rparr>
      else s)"
| "step pg (ApiCallRuns i today timeNow) s =
     (if in_phase s i ApiCall
      then s\<lparr>mockAttendance :=
                snd (recordAttendance (page_mode pg) (mockSettings pg)
                       (id_no (fst (timers s ! i))) today timeNow (mockAttendance s)),
             timers := (timers s)[i := (fst (timers s ! i), Settle)]\<rparr>
      else s)"
| "step pg (SettleElapsed i) s =
     (if in_phase s i Settle
      then s\<lparr>isProcessing := False, timers := take i (timers s) @ drop (Suc i) (timers s)\<rparr>
      else s)"

definition run :: "page \<Rightarrow> event list \<Rightarrow> session \<Rightarrow> session" where
  "run pg evs s = fold (step pg) evs s"

subsection \<open>The guard invariant and a sample page\<close>

text \<open>
  \<open>one_commit\<close> is the invariant of the processing flag: at most one commit is
  under way, and the flag is set exactly while one is.
\<close>

definition one_commit :: "session \<Rightarrow> bool" where
  "one_commit s = (length (timers s) \<le> 1 \<and> (isProcessing s \<longleftrightarrow> timers s \<noteq> []))"

text \<open>Two registered students and a check-in page, for the sample runs below.\<close>

definition student1 :: student where
  "student1 = \<lparr>id_no = 1, studentId = ''S001'', firstName = ''A'', lastName = ''B''\<rparr>"

definition student2 :: student where
  "student2 = \<lparr>id_no = 2, studentId = ''S002'', firstName = ''C'', lastName = ''D''\<rparr>"

definition checkin_page :: page where
  "checkin_page = \<lparr>page_mode = Checkin, mockSettings = initialSettings,
                    mockStudents = [student1, student2]\<rparr>"

section \<open>The quality gate of FaceRegistrationPage\<close>

subsection \<open>JavaScript numbers\<close>

text \<open>
  A JavaScript number is an IEEE 754 binary64 value: a finite double, an infinity or
  NaN. A finite double is kept as the real it denotes. The sign of a zero is not kept;
  it could only show in the sign of a quotient by zero, and the one divisor of this
  section, the frame area, is a product of two non-negative integers.
\<close>

datatype js_number = Finite real | PlusInfinity | MinusInfinity | NotANumber

text \<open>
  \<open>exponent x\<close> is the integer \<open>e\<close> with \<open>2 ^ e \<le> x < 2 ^ (e + 1)\<close>, for
  positive \<open>x\<close>, computed from the bit length of an integer next to \<open>x\<close> or to
  \<open>1 / x\<close>.
\<close>

definition exponent :: "real \<Rightarrow> int" where
  "exponent x = (if 1 \<le> x then bitlen \<lfloor>x\<rfloor> - 1 else - bitlen (\<lceil>1 / x\<rceil> - 1))"

text \<open>The nearest integer, the even one of the two when \<open>x\<close> lies half way.\<close>

definition round_ties_even :: "real \<Rightarrow> int" where
  "round_ties_even x =
     (let n = \<lfloor>x\<rfloor>; f = x - of_int n
      in if f < 1 / 2 then n else if 1 / 2 < f then n + 1 else if even n then n else n + 1)"

text \<open>
  Rounding of an exact result to binary64, to nearest with ties to even: the result is
  a multiple of the spacing \<open>2 ^ (e - 52)\<close> of the doubles around \<open>x\<close>, where
  \<open>e\<close> is the exponent of \<open>x\<close>, not below \<open>-1022\<close> (the subnormal range has
  the spacing \<open>2 ^ -1074\<close>); a result of magnitude \<open>2 ^ 1024\<close> is an infinity.
\<close>

definition round64 :: "real \<Rightarrow> js_number" where
  "round64 x =
     (if x = 0 then Finite 0
      else
        let a = \<bar>x\<bar>;
            e = max (exponent a) (- 1022);
            q = 2 powi (e - 52);
            y = of_int (round_ties_even (a / q)) * q
        in if 2 powi 1024 \<le> y then (if 0 < x then PlusInfinity else MinusInfinity)
           else Finite (if 0 < x then y else - y))"

text \<open>The operators \<open>*\<close> and \<open>/\<close>: the exact result rounded, and the special cases.\<close>

fun js_mul :: "js_number \<Rightarrow> js_number \<Rightarrow> js_number" where
  "js_mul NotANumber b = NotANumber"
| "js_mul a NotANumber = NotANumber"
| "js_mul (Finite x) (Finite y) = round64 (x * y)"
| "js_mul (Finite x) PlusInfinity =
     (if x = 0 then NotANumber else if 0 < x then PlusInfinity else MinusInfinity)"
| "js_mul (Finite x) MinusInfinity =
     (if x = 0 then NotANumber else if 0 < x then MinusInfinity else PlusInfinity)"
| "js_mul PlusInfinity (Finite y) =
     (if y = 0 then NotANumber else if 0 < y then PlusInfinity else MinusInfinity)"
| "js_mul MinusInfinity (Finite y) =
     (if y = 0 then NotANumber else if 0 < y then MinusInfinity else PlusInfinity)"
| "js_mul PlusInfinity PlusInfinity = PlusInfinity"
| "js_mul PlusInfinity MinusInfinity = MinusInfinity"
| "js_mul MinusInfinity PlusInfinity = MinusInfinity"
| "js_mul MinusInfinity MinusInfinity = PlusInfinity"

fun js_div :: "js_number \<Rightarrow> js_number \<Rightarrow> js_number" where
  "js_div NotANumber b = NotANumber"
| "js_div a NotANumber = NotANumber"
| "js_div (Finite x) (Finite y) =
     (if y = 0
      then (if x = 0 then NotANumber else if 0 < x then PlusInfinity else MinusInfinity)
      else round64 (x / y))"
| "js_div (Finite x) PlusInfinity = Finite 0"
| "js_div (Finite x) MinusInfinity = Finite 0"
| "js_div PlusInfinity (Finite y) = (if y < 0 then MinusInfinity else PlusInfinity)"
| "js_div MinusInfinity (Finite y) = (if y < 0 then PlusInfinity else MinusInfinity)"
| "js_div PlusInfinity b = NotANumber"
| "js_div MinusInfinity b = NotANumber"

text \<open>The comparisons; each is false when an operand is NaN.\<close>

fun js_lt :: "js_number \<Rightarrow> js_number \<Rightarrow> bool" where
  "js_lt NotANumber b = False"
| "js_lt a NotANumber = False"
| "js_lt (Finite x) (Finite y) = (x < y)"
| "js_lt (Finite x) PlusInfinity = True"
| "js_lt (Finite x) MinusInfinity = False"
| "js_lt PlusInfinity b = False"
| "js_lt MinusInfinity MinusInfinity = False"
| "js_lt MinusInfinity b = True"

definition js_gt :: "js_number \<Rightarrow> js_number \<Rightarrow> bool" where
  "js_gt a b = js_lt b a"

definition js_le :: "js_number \<Rightarrow> js_number \<Rightarrow> bool" where
  "js_le a b = (js_lt a b \<or> (a \<noteq> NotANumber \<and> a = b))"

definition js_ge :: "js_number \<Rightarrow> js_number \<Rightarrow> bool" where
  "js_ge a b = js_le b a"

subsection \<open>The interval callback of startFaceDetection\<close>

text \<open>
  The callback from the detection result on. The sizes of a box are finite numbers and
  \<open>clientWidth\<close>, \<open>clientHeight\<close> are non-negative integers; each enters the
  arithmetic as the double it is (\<open>round64\<close> leaves a double as it is and takes any
  other real to the double a literal of that value denotes). \<open>0.05\<close> and \<open>0.4\<close>
  are the doubles the two literals denote.
\<close>

record face =
  boxWidth :: real
  boxHeight :: real
  descriptor :: "real list"

datatype gate_message = GoodQuality | TooSmall | TooLarge | MultipleFaces | NoFace

record gate_state =
  gate_status :: gate_message
  faceDescriptor :: "real list option"
  showCaptureButton :: bool

definition faceSizeRatio :: "face \<Rightarrow> nat \<Rightarrow> nat \<Rightarrow> js_number" where
  "faceSizeRatio detection clientWidth clientHeight =
     js_div (js_mul (round64 (boxWidth detection)) (round64 (boxHeight detection)))
            (js_mul (round64 (real clientWidth)) (round64 (real clientHeight)))"

definition faceDetection_tick :: "nat \<Rightarrow> nat \<Rightarrow> face list \<Rightarrow> gate_state \<Rightarrow> gate_state" where
  "faceDetection_tick clientWidth clientHeight resizedDetections s =
     (case resizedDetections of
        [detection] \<Rightarrow>
          (let r = faceSizeRatio detection clientWidth clientHeight
           in if js_gt r (round64 0.05) \<and> js_lt r (round64 0.4)
              then s\<lparr>gate_status := GoodQuality, faceDescriptor := Some (descriptor detection),
                     showCaptureButton := True\<rparr>
              else s\<lparr>faceDescriptor := None, showCaptureButton := False,
                     gate_status := (if js_le r (round64 0.05) then TooSmall else TooLarge)\<rparr>)
      | _ \<Rightarrow>
          s\<lparr>faceDescriptor := None, showCaptureButton := False,
            gate_status := (if 1 < length resizedDetections then MultipleFaces else NoFace)\<rparr>)"

section \<open>Basic facts about findIndex\<close>

lemma findIndex_None_iff: "findIndex P xs = None \<longleftrightarrow> (\<forall>x \<in> set xs. \<not> P x)"
  by (induction xs) auto

lemma findIndex_Some_bound: "findIndex P xs = Some i \<Longrightarrow> i < length xs \<and> P (xs ! i)"
  by (induction xs arbitrary: i) (auto split: if_splits)

lemma findIndex_Some_first: "findIndex P xs = Some i \<Longrightarrow> j < i \<Longrightarrow> \<not> P (xs ! j)"
proof (induction xs arbitrary: i j)
  case Nil
  then show ?case by simp
next
  case (Cons x xs)
  show ?case
  proof (cases "P x")
    case True
    with Cons.prems show ?thesis by simp
  next
    case False
    with Cons.prems obtain k where k: "findIndex P xs = Some k" "i = Suc k"
      by auto
    show ?thesis
    proof (cases j)
      case 0
      with False show ?thesis by simp
    next
      case (Suc j')
      with Cons.prems k have "j' < k" by simp
      with Cons.IH [OF k(1)] Suc show ?thesis by simp
    qed
  qed
qed

lemma str_lt_lexord:
  "str_lt xs ys \<longleftrightarrow> (xs, ys) \<in> lexord {(a, b). (of_char a :: nat) < of_char b}"
  by (induction xs ys rule: str_lt.induct) auto

lemma findIndex_find: "findIndex P xs = Some i \<Longrightarrow> find P xs = Some (xs ! i)"
  by (induction xs arbitrary: i) (auto split: if_splits)

lemma find_None_findIndex: "find P xs = None \<longleftrightarrow> findIndex P xs = None"
  by (induction xs) auto

lemma filter_update_same:
  "i < length xs \<Longrightarrow> P y = P (xs ! i) \<Longrightarrow> length (filter P (xs[i := y])) = length (filter P xs)"
proof (induction xs arbitrary: i)
  case Nil
  then show ?case by simp
next
  case (Cons x xs)
  then show ?case by (cases i) auto
qed

lemma find_update_keep:
  "i < length xs \<Longrightarrow> P y = P (xs ! i) \<Longrightarrow> f y = f (xs ! i) \<Longrightarrow>
   map_option f (find P (xs[i := y])) = map_option f (find P xs)"
proof (induction xs arbitrary: i)
  case Nil
  then show ?case by simp
next
  case (Cons x xs)
  then show ?case by (cases i) auto
qed

lemma recordAttendance_checkin_new:
  "findIndex (same_day sid today) store = None \<Longrightarrow>
   recordAttendance Checkin cfg sid today timeNow store =
     (Inr (Recorded timeNow (if str_lt (lateTime cfg) timeNow then Late else Present)),
      \<lparr>student_id = sid, date = today, checkIn = Some timeNow, checkOut = None,
       status = (if str_lt (lateTime cfg) timeNow then Late else Present)\<rparr> # store)"
  by (simp add: recordAttendance_def computed_status_def)

lemma recordAttendance_checkin_dup:
  "findIndex (same_day sid today) store = Some i \<Longrightarrow>
   recordAttendance Checkin cfg sid today timeNow store =
     (Inl (AlreadyCheckedIn (checkIn (store ! i))), store)"
  by (simp add: recordAttendance_def)

lemma recordAttendance_checkout_none:
  "findIndex (same_day sid today) store = None \<Longrightarrow>
   recordAttendance Checkout cfg sid today timeNow store = (Inl NoCheckInFound, store)"
  by (simp add: recordAttendance_def)

lemma recordAttendance_checkout_found:
  "findIndex (same_day sid today) store = Some i \<Longrightarrow>
   recordAttendance Checkout cfg sid today timeNow store =
     (Inr (Recorded timeNow (if str_lt timeNow (checkOutTime cfg) then EarlyLeave else Present)),
      store[i := (store ! i)\<lparr>checkOut := Some timeNow,
                 status := (if status (store ! i) = Late then Late
                            else if str_lt timeNow (checkOutTime cfg) then EarlyLeave
                            else Present)\<rparr>])"
  by (simp add: recordAttendance_def computed_status_def)

lemma commit_cases:
  obtains
    (dup) i where "a_mode a = Checkin" "findIndex (same_day (a_student a) (a_today a)) store = Some i"
      "commit a store = store"
  | (new) st where "a_mode a = Checkin" "findIndex (same_day (a_student a) (a_today a)) store = None"
      "commit a store = \<lparr>student_id = a_student a, date = a_today a, checkIn = Some (a_timeNow a),
         checkOut = None, status = st\<rparr> # store"
  | (none) "a_mode a = Checkout" "findIndex (same_day (a_student a) (a_today a)) store = None"
      "commit a store = store"
  | (upd) i co st where "a_mode a = Checkout" "findIndex (same_day (a_student a) (a_today a)) store = Some i"
      "commit a store = store[i := (store ! i)\<lparr>checkOut := co, status := st\<rparr>]"
proof (cases "a_mode a")
  case Checkin
  show ?thesis
  proof (cases "findIndex (same_day (a_student a) (a_today a)) store")
    case None
    with Checkin new show ?thesis
      by (simp add: commit_def recordAttendance_checkin_new)
  next
    case (Some i)
    with Checkin dup show ?thesis
      by (simp add: commit_def recordAttendance_checkin_dup)
  qed
next
  case Checkout
  show ?thesis
  proof (cases "findIndex (same_day (a_student a) (a_today a)) store")
    case None
    with Checkout none show ?thesis
      by (simp add: commit_def recordAttendance_checkout_none)
  next
    case (Some i)
    with Checkout upd show ?thesis
      by (simp add: commit_def recordAttendance_checkout_found)
  qed
qed

lemma commit_count:
  assumes "checked_in_count sid d store \<le> 1"
  shows "checked_in_count sid d (commit a store) \<le> 1"
proof (cases a store rule: commit_cases)
  case (dup i)
  with assms show ?thesis by simp
next
  case (new st)
  show ?thesis
  proof (cases "a_student a = sid \<and> a_today a = d")
    case True
    with new(2) have "\<forall>x \<in> set store. \<not> same_day sid d x"
      by (simp add: findIndex_None_iff)
    then have "filter (checked_in sid d) store = []"
      by (auto simp: filter_empty_conv same_day_def checked_in_def)
    with new(3) show ?thesis
      by (simp add: checked_in_count_def)
  next
    case False
    with new(3) assms show ?thesis
      by (auto simp: checked_in_count_def checked_in_def)
  qed
next
  case none
  with assms show ?thesis by simp
next
  case (upd i co st)
  from upd(2) have "i < length store"
    by (simp add: findIndex_Some_bound)
  then have "length (filter (checked_in sid d) (store[i := (store ! i)\<lparr>checkOut := co, status := st\<rparr>]))
      = length (filter (checked_in sid d) store)"
    by (rule filter_update_same) (simp add: checked_in_def)
  with upd(3) assms show ?thesis
    by (simp add: checked_in_count_def)
qed

lemma commits_run_count:
  "checked_in_count sid d store \<le> 1 \<Longrightarrow> checked_in_count sid d (commits_run as store) \<le> 1"
proof (induction as arbitrary: store)
  case Nil
  then show ?case by (simp add: commits_run_def)
next
  case (Cons a as)
  from Cons.prems have "checked_in_count sid d (commit a store) \<le> 1"
    by (rule commit_count)
  then have "checked_in_count sid d (commits_run as (commit a store)) \<le> 1"
    by (rule Cons.IH)
  then show ?case by (simp add: commits_run_def)
qed

lemma commit_first:
  assumes "map_option checkIn (find (same_day sid d) store) = Some c"
  shows "map_option checkIn (find (same_day sid d) (commit a store)) = Some c"
proof (cases a store rule: commit_cases)
  case (dup i)
  with assms show ?thesis by simp
next
  case (new st)
  show ?thesis
  proof (cases "a_student a = sid \<and> a_today a = d")
    case True
    with new(2) have "find (same_day sid d) store = None"
      by (simp add: find_None_findIndex)
    with assms show ?thesis by simp
  next
    case False
    with new(3) assms show ?thesis
      by (auto simp: same_day_def)
  qed
next
  case none
  with assms show ?thesis by simp
next
  case (upd i co st)
  from upd(2) have "i < length store"
    by (simp add: findIndex_Some_bound)
  then have "map_option checkIn (find (same_day sid d) (store[i := (store ! i)\<lparr>checkOut := co, status := st\<rparr>]))
      = map_option checkIn (find (same_day sid d) store)"
    by (rule find_update_keep) (simp_all add: same_day_def)
  with upd(3) assms show ?thesis by simp
qed

lemma commits_run_first:
  "map_option checkIn (find (same_day sid d) store) = Some c \<Longrightarrow>
   map_option checkIn (find (same_day sid d) (commits_run as store)) = Some c"
proof (induction as arbitrary: store)
  case Nil
  then show ?case by (simp add: commits_run_def)
next
  case (Cons a as)
  from Cons.prems have "map_option checkIn (find (same_day sid d) (commit a store)) = Some c"
    by (rule commit_first)
  then have "map_option checkIn (find (same_day sid d) (commits_run as (commit a store))) = Some c"
    by (rule Cons.IH)
  then show ?case by (simp add: commits_run_def)
qed

lemma checkin_after_first:
  assumes "map_option checkIn (find (same_day sid d) store) = Some c"
  shows "recordAttendance Checkin cfg sid d t store = (Inl (AlreadyCheckedIn c), store)"
proof (cases "findIndex (same_day sid d) store")
  case None
  then have "find (same_day sid d) store = None"
    by (simp add: find_None_findIndex)
  with assms show ?thesis by simp
next
  case (Some i)
  then have "find (same_day sid d) store = Some (store ! i)"
    by (rule findIndex_find)
  with assms have "checkIn (store ! i) = c" by simp
  with Some show ?thesis
    by (simp add: recordAttendance_checkin_dup)
qed

section \<open>The attendance recorder\<close>

text \<open>
  Claim C1 (at most one check-in per student and day). \<open>checked_in_count sid d\<close>
  counts the records of student \<open>sid\<close> on date \<open>d\<close> whose \<open>checkIn\<close> is not
  \<open>null\<close>. After any sequence \<open>as\<close> of commits (check-ins, and check-outs
  as well) the count is at most one, starting from the empty array or from any array
  in which it was at most one. The first check-in of the day, the one that finds no
  record of the student for \<open>d\<close>, puts a new record with \<open>checkIn = t\<close> in
  front of the array. Whatever commits follow it, a later check-in of the same student
  on the same day returns the already-checked-in error carrying \<open>t\<close> and returns
  the array as it found it.
\<close>

theorem at_most_one_check_in_per_day:
  "checked_in_count sid d (commits_run as []) \<le> 1
   \<and> (checked_in_count sid d store \<le> 1 \<longrightarrow> checked_in_count sid d (commits_run as store) \<le> 1)
   \<and> (findIndex (same_day sid d) store = None \<longrightarrow>
        recordAttendance Checkin cfg sid d t store =
          (Inr (Recorded t (if str_lt (lateTime cfg) t then Late else Present)),
           \<lparr>student_id = sid, date = d, checkIn = Some t, checkOut = None,
            status = (if str_lt (lateTime cfg) t then Late else Present)\<rparr> # store)
        \<and> recordAttendance Checkin cfg' sid d t'
            (commits_run as (snd (recordAttendance Checkin cfg sid d t store))) =
          (Inl (AlreadyCheckedIn (Some t)),
           commits_run as (snd (recordAttendance Checkin cfg sid d t store))))"
proof (intro conjI impI)
  have "checked_in_count sid d [] \<le> 1"
    by (simp add: checked_in_count_def)
  then show "checked_in_count sid d (commits_run as []) \<le> 1"
    by (rule commits_run_count)
next
  assume "checked_in_count sid d store \<le> 1"
  then show "checked_in_count sid d (commits_run as store) \<le> 1"
    by (rule commits_run_count)
next
  assume none: "findIndex (same_day sid d) store = None"
  then show new: "recordAttendance Checkin cfg sid d t store =
      (Inr (Recorded t (if str_lt (lateTime cfg) t then Late else Present)),
       \<lparr>student_id = sid, date = d, checkIn = Some t, checkOut = None,
        status = (if str_lt (lateTime cfg) t then Late else Present)\<rparr> # store)"
    by (rule recordAttendance_checkin_new)
  have "map_option checkIn (find (same_day sid d) (snd (recordAttendance Checkin cfg sid d t store)))
      = Some (Some t)"
    by (simp add: new same_day_def)
  then have "map_option checkIn
      (find (same_day sid d) (commits_run as (snd (recordAttendance Checkin cfg sid d t store))))
      = Some (Some t)"
    by (rule commits_run_first)
  then show "recordAttendance Checkin cfg' sid d t'
      (commits_run as (snd (recordAttendance Checkin cfg sid d t store))) =
      (Inl (AlreadyCheckedIn (Some t)),
       commits_run as (snd (recordAttendance Checkin cfg sid d t store)))"
    by (rule checkin_after_first)
qed

theorem at_most_one_check_in_per_day_witness:
  "checked_in_count 1 ''2024-01-01'' [] \<le> 1
   \<and> findIndex (same_day 1 ''2024-01-01'') [] = None
   \<and> checked_in_count 1 ''2024-01-01''
        (commits_run
          [\<lparr>a_mode = Checkin, a_settings = initialSettings, a_student = 1,
            a_today = ''2024-01-01'', a_timeNow = ''08:05''\<rparr>,
           \<lparr>a_mode = Checkin, a_settings = initialSettings, a_student = 1,
            a_today = ''2024-01-01'', a_timeNow = ''08:20''\<rparr>] []) \<le> 1
   \<and> recordAttendance Checkin initialSettings 1 ''2024-01-01'' ''08:05'' [] =
       (Inr (Recorded ''08:05'' Present),
        [\<lparr>student_id = 1, date = ''2024-01-01'', checkIn = Some ''08:05'', checkOut = None,
          status = Present\<rparr>])
   \<and> recordAttendance Checkin initialSettings 1 ''2024-01-01'' ''08:20''
        (commits_run []
          (snd (recordAttendance Checkin initialSettings 1 ''2024-01-01'' ''08:05'' []))) =
       (Inl (AlreadyCheckedIn (Some ''08:05'')),
        [\<lparr>student_id = 1, date = ''2024-01-01'', checkIn = Some ''08:05'', checkOut = None,
          status = Present\<rparr>])"
proof -
  have h1: "checked_in_count 1 ''2024-01-01'' [] \<le> 1"
    by (simp add: checked_in_count_def)
  have h2: "findIndex (same_day 1 ''2024-01-01'') [] = None"
    by simp
  have late: "\<not> str_lt (lateTime initialSettings) ''08:05''"
    by (simp add: initialSettings_def)
  note a = at_most_one_check_in_per_day
    [of 1 "''2024-01-01''"
        "[\<lparr>a_mode = Checkin, a_settings = initialSettings, a_student = 1,
            a_today = ''2024-01-01'', a_timeNow = ''08:05''\<rparr>,
          \<lparr>a_mode = Checkin, a_settings = initialSettings, a_student = 1,
            a_today = ''2024-01-01'', a_timeNow = ''08:20''\<rparr>]"
        "[]" initialSettings "''08:05''" initialSettings "''08:20''"]
  note b = at_most_one_check_in_per_day
    [of 1 "''2024-01-01''" "[]" "[]" initialSettings "''08:05''" initialSettings "''08:20''"]
  from a have c1: "checked_in_count 1 ''2024-01-01''
        (commits_run
          [\<lparr>a_mode = Checkin, a_settings = initialSettings, a_student = 1,
            a_today = ''2024-01-01'', a_timeNow = ''08:05''\<rparr>,
           \<lparr>a_mode = Checkin, a_settings = initialSettings, a_student = 1,
            a_today = ''2024-01-01'', a_timeNow = ''08:20''\<rparr>] []) \<le> 1"
    by (rule conjunct1)
  note n = b [THEN conjunct2, THEN conjunct2, THEN mp, OF h2]
  from n [THEN conjunct1] late have c2: "recordAttendance Checkin initialSettings 1 ''2024-01-01'' ''08:05'' [] =
       (Inr (Recorded ''08:05'' Present),
        [\<lparr>student_id = 1, date = ''2024-01-01'', checkIn = Some ''08:05'', checkOut = None,
          status = Present\<rparr>])"
    by simp
  from n [THEN conjunct2] have c3: "recordAttendance Checkin initialSettings 1 ''2024-01-01'' ''08:20''
        (commits_run []
          (snd (recordAttendance Checkin initialSettings 1 ''2024-01-01'' ''08:05'' []))) =
       (Inl (AlreadyCheckedIn (Some ''08:05'')),
        commits_run []
          (snd (recordAttendance Checkin initialSettings 1 ''2024-01-01'' ''08:05'' [])))" .
  have "commits_run [] (snd (recordAttendance Checkin initialSettings 1 ''2024-01-01'' ''08:05'' []))
      = [\<lparr>student_id = 1, date = ''2024-01-01'', checkIn = Some ''08:05'', checkOut = None,
          status = Present\<rparr>]"
    by (simp add: c2 commits_run_def)
  with c3 have c4: "recordAttendance Checkin initialSettings 1 ''2024-01-01'' ''08:20''
        (commits_run []
          (snd (recordAttendance Checkin initialSettings 1 ''2024-01-01'' ''08:05'' []))) =
       (Inl (AlreadyCheckedIn (Some ''08:05'')),
        [\<lparr>student_id = 1, date = ''2024-01-01'', checkIn = Some ''08:05'', checkOut = None,
          status = Present\<rparr>])"
    by simp
  from h1 h2 c1 c2 c4 show ?thesis by blast
qed

text \<open>
  Claim C2 (check-out needs a check-in). When the array holds no record of the student
  for today's date, a check-out commit returns the no-check-in-found error and the
  array it returns is the array it was given: no record is created or changed.
\<close>

theorem checkout_without_record_fails:
  assumes "\<forall>a \<in> set store. \<not> (student_id a = sid \<and> date a = today)"
  shows "recordAttendance Checkout cfg sid today timeNow store = (Inl NoCheckInFound, store)"
proof -
  from assms have "findIndex (same_day sid today) store = None"
    by (simp add: findIndex_None_iff same_day_def)
  then show ?thesis
    by (rule recordAttendance_checkout_none)
qed

theorem checkout_without_record_fails_witness:
  "\<not> (student_id \<lparr>student_id = 2, date = ''2024-01-01'', checkIn = Some ''08:40'',
                    checkOut = None, status = Late\<rparr> = 1
        \<and> date \<lparr>student_id = 2, date = ''2024-01-01'', checkIn = Some ''08:40'',
                 checkOut = None, status = Late\<rparr> = ''2024-01-01'')
   \<and> recordAttendance Checkout initialSettings 1 ''2024-01-01'' ''16:05''
        [\<lparr>student_id = 2, date = ''2024-01-01'', checkIn = Some ''08:40'',
          checkOut = None, status = Late\<rparr>] =
       (Inl NoCheckInFound,
        [\<lparr>student_id = 2, date = ''2024-01-01'', checkIn = Some ''08:40'',
          checkOut = None, status = Late\<rparr>])"
proof -
  have h: "\<forall>a \<in> set [\<lparr>student_id = 2, date = ''2024-01-01'', checkIn = Some ''08:40'',
                  checkOut = None, status = Late\<rparr>].
      \<not> (student_id a = 1 \<and> date a = ''2024-01-01'')"
    by simp
  from checkout_without_record_fails [OF h, of initialSettings "''16:05''"] show ?thesis
    by simp
qed

text \<open>
  Claim C3 (a late status is kept). Let \<open>store ! i\<close> be the record the check-out
  finds, the first one of the student for today. The commit succeeds and changes that
  record only: \<open>checkOut\<close> becomes the current time; a status \<open>Late\<close> stays
  \<open>Late\<close> whatever the time, also before \<open>checkOutTime\<close>; any other status
  becomes \<open>EarlyLeave\<close> when the current time is before \<open>checkOutTime\<close> and
  \<open>Present\<close> otherwise.
\<close>

theorem checkout_keeps_late:
  assumes "findIndex (same_day sid today) store = Some i"
  shows "fst (recordAttendance Checkout cfg sid today timeNow store) =
           Inr (Recorded timeNow
                  (if str_lt timeNow (checkOutTime cfg) then EarlyLeave else Present))
    \<and> snd (recordAttendance Checkout cfg sid today timeNow store) =
        store[i := (store ! i)\<lparr>checkOut := Some timeNow,
                     status := (if status (store ! i) = Late then Late
                                else if str_lt timeNow (checkOutTime cfg) then EarlyLeave
                                else Present)\<rparr>]
    \<and> checkOut (snd (recordAttendance Checkout cfg sid today timeNow store) ! i) = Some timeNow
    \<and> (status (store ! i) = Late \<longrightarrow>
         status (snd (recordAttendance Checkout cfg sid today timeNow store) ! i) = Late)
    \<and> (status (store ! i) \<noteq> Late \<longrightarrow>
         status (snd (recordAttendance Checkout cfg sid today timeNow store) ! i) =
           (if str_lt timeNow (checkOutTime cfg) then EarlyLeave else Present))"
proof -
  from assms have i: "i < length store"
    by (simp add: findIndex_Some_bound)
  from assms have eq: "recordAttendance Checkout cfg sid today timeNow store =
     (Inr (Recorded timeNow (if str_lt timeNow (checkOutTime cfg) then EarlyLeave else Present)),
      store[i := (store ! i)\<lparr>checkOut := Some timeNow,
                 status := (if status (store ! i) = Late then Late
                            else if str_lt timeNow (checkOutTime cfg) then EarlyLeave
                            else Present)\<rparr>])"
    by (rule recordAttendance_checkout_found)
  show ?thesis
    unfolding eq using i by simp
qed

theorem checkout_keeps_late_witness:
  "findIndex (same_day 2 ''2024-01-01'')
     [\<lparr>student_id = 2, date = ''2024-01-01'', checkIn = Some ''08:45'',
       checkOut = None, status = Late\<rparr>] = Some 0
   \<and> str_lt ''15:50'' (checkOutTime initialSettings)
   \<and> snd (recordAttendance Checkout initialSettings 2 ''2024-01-01'' ''15:50''
        [\<lparr>student_id = 2, date = ''2024-01-01'', checkIn = Some ''08:45'',
          checkOut = None, status = Late\<rparr>]) =
       [\<lparr>student_id = 2, date = ''2024-01-01'', checkIn = Some ''08:45'',
         checkOut = Some ''15:50'', status = Late\<rparr>]"
proof -
  have h: "findIndex (same_day 2 ''2024-01-01'')
     [\<lparr>student_id = 2, date = ''2024-01-01'', checkIn = Some ''08:45'',
       checkOut = None, status = Late\<rparr>] = Some 0"
    by (simp add: same_day_def)
  have e: "str_lt ''15:50'' (checkOutTime initialSettings)"
    by (simp add: initialSettings_def)
  from checkout_keeps_late [OF h, of initialSettings "''15:50''"] h e show ?thesis
    by simp
qed

text \<open>
  Claim C7 (the record a check-in creates). A check-in that succeeds puts in front of
  the array a record with \<open>checkIn\<close> the current time string, \<open>checkOut\<close>
  absent, and status \<open>Late\<close> exactly when the current time string is greater than
  \<open>lateTime\<close>, \<open>Present\<close> otherwise; it returns the same time and status. The
  comparison is the lexicographic order of the two strings over their character codes.
\<close>

theorem checkin_record_and_status:
  assumes "recordAttendance Checkin cfg sid today timeNow store = (Inr res, store')"
  shows "store' = \<lparr>student_id = sid, date = today, checkIn = Some timeNow, checkOut = None,
                   status = (if str_lt (lateTime cfg) timeNow then Late else Present)\<rparr> # store
    \<and> res = Recorded timeNow (if str_lt (lateTime cfg) timeNow then Late else Present)
    \<and> (str_lt (lateTime cfg) timeNow \<longleftrightarrow>
         (lateTime cfg, timeNow) \<in> lexord {(a, b). (of_char a :: nat) < of_char b})"
proof (cases "findIndex (same_day sid today) store")
  case None
  from recordAttendance_checkin_new [OF None, of cfg timeNow] assms show ?thesis
    by (simp add: str_lt_lexord)
next
  case (Some i)
  from recordAttendance_checkin_dup [OF Some, of cfg timeNow] assms show ?thesis
    by simp
qed

theorem checkin_record_and_status_witness:
  "recordAttendance Checkin initialSettings 3 ''2024-01-01'' ''08:45'' [] =
     (Inr (Recorded ''08:45'' Late),
      [\<lparr>student_id = 3, date = ''2024-01-01'', checkIn = Some ''08:45'', checkOut = None,
        status = Late\<rparr>])
   \<and> [\<lparr>student_id = 3, date = ''2024-01-01'', checkIn = Some ''08:45'', checkOut = None,
        status = Late\<rparr>] =
      [\<lparr>student_id = 3, date = ''2024-01-01'', checkIn = Some ''08:45'', checkOut = None,
        status = (if str_lt (lateTime initialSettings) ''08:45'' then Late else Present)\<rparr>]
   \<and> str_lt (lateTime initialSettings) ''08:45''"
proof -
  have h: "recordAttendance Checkin initialSettings 3 ''2024-01-01'' ''08:45'' [] =
     (Inr (Recorded ''08:45'' Late),
      [\<lparr>student_id = 3, date = ''2024-01-01'', checkIn = Some ''08:45'', checkOut = None,
        status = Late\<rparr>])"
    by (simp add: recordAttendance_def computed_status_def initialSettings_def)
  have l: "str_lt (lateTime initialSettings) ''08:45''"
    by (simp add: initialSettings_def)
  from checkin_record_and_status [OF h] h l show ?thesis
    by simp
qed

text \<open>
  Claim C8 (duplicates in each direction), as stated, fails for check-out. A student
  checked in at 08:05 checks out at 15:50 and again at 16:10, with \<open>checkOutTime\<close>
  16:00. The second check-out is not rejected: it succeeds, replaces the recorded
  \<open>checkOut\<close> 15:50 by 16:10 and turns the status from \<open>EarlyLeave\<close> into
  \<open>Present\<close>.
\<close>

theorem repeated_checkout_counterexample:
  "recordAttendance Checkout initialSettings 1 ''2024-01-01'' ''15:50''
     [\<lparr>student_id = 1, date = ''2024-01-01'', checkIn = Some ''08:05'', checkOut = None,
       status = Present\<rparr>] =
     (Inr (Recorded ''15:50'' EarlyLeave),
      [\<lparr>student_id = 1, date = ''2024-01-01'', checkIn = Some ''08:05'',
        checkOut = Some ''15:50'', status = EarlyLeave\<rparr>])
   \<and> recordAttendance Checkout initialSettings 1 ''2024-01-01'' ''16:10''
     [\<lparr>student_id = 1, date = ''2024-01-01'', checkIn = Some ''08:05'',
       checkOut = Some ''15:50'', status = EarlyLeave\<rparr>] =
     (Inr (Recorded ''16:10'' Present),
      [\<lparr>student_id = 1, date = ''2024-01-01'', checkIn = Some ''08:05'',
        checkOut = Some ''16:10'', status = Present\<rparr>])"
  by (simp add: recordAttendance_def computed_status_def initialSettings_def same_day_def)

text \<open>
  Claim C8, amended. When the student already has a record for today, at index \<open>i\<close>:
  a further check-in is rejected with the already-checked-in error and the array is
  returned unchanged; a further check-out is not rejected, whether or not a
  \<open>checkOut\<close> time is recorded already. It succeeds, creates no record, overwrites
  \<open>checkOut\<close> with the new time and, unless the status is \<open>Late\<close>, sets the
  status anew from the new time.
\<close>

theorem duplicate_commits:
  assumes "findIndex (same_day sid today) store = Some i"
  shows "recordAttendance Checkin cfg sid today timeNow store =
           (Inl (AlreadyCheckedIn (checkIn (store ! i))), store)
    \<and> fst (recordAttendance Checkout cfg sid today timeNow store) =
         Inr (Recorded timeNow
                (if str_lt timeNow (checkOutTime cfg) then EarlyLeave else Present))
    \<and> length (snd (recordAttendance Checkout cfg sid today timeNow store)) = length store
    \<and> checkOut (snd (recordAttendance Checkout cfg sid today timeNow store) ! i) = Some timeNow
    \<and> status (snd (recordAttendance Checkout cfg sid today timeNow store) ! i) =
         (if status (store ! i) = Late then Late
          else if str_lt timeNow (checkOutTime cfg) then EarlyLeave else Present)"
proof -
  from assms have i: "i < length store"
    by (simp add: findIndex_Some_bound)
  note out = recordAttendance_checkout_found [OF assms, of cfg timeNow]
  note dup = recordAttendance_checkin_dup [OF assms, of cfg timeNow]
  show ?thesis
    unfolding out dup using i by simp
qed

theorem duplicate_commits_witness:
  "findIndex (same_day 1 ''2024-01-01'')
     [\<lparr>student_id = 1, date = ''2024-01-01'', checkIn = Some ''08:05'',
       checkOut = Some ''15:50'', status = EarlyLeave\<rparr>] = Some 0
   \<and> recordAttendance Checkin initialSettings 1 ''2024-01-01'' ''16:10''
       [\<lparr>student_id = 1, date = ''2024-01-01'', checkIn = Some ''08:05'',
         checkOut = Some ''15:50'', status = EarlyLeave\<rparr>] =
       (Inl (AlreadyCheckedIn (Some ''08:05'')),
        [\<lparr>student_id = 1, date = ''2024-01-01'', checkIn = Some ''08:05'',
          checkOut = Some ''15:50'', status = EarlyLeave\<rparr>])
   \<and> checkOut (snd (recordAttendance Checkout initialSettings 1 ''2024-01-01'' ''16:10''
       [\<lparr>student_id = 1, date = ''2024-01-01'', checkIn = Some ''08:05'',
         checkOut = Some ''15:50'', status = EarlyLeave\<rparr>]) ! 0) = Some ''16:10''
   \<and> status (snd (recordAttendance Checkout initialSettings 1 ''2024-01-01'' ''16:10''
       [\<lparr>student_id = 1, date = ''2024-01-01'', checkIn = Some ''08:05'',
         checkOut = Some ''15:50'', status = EarlyLeave\<rparr>]) ! 0) = Present"
proof -
  have h: "findIndex (same_day 1 ''2024-01-01'')
     [\<lparr>student_id = 1, date = ''2024-01-01'', checkIn = Some ''08:05'',
       checkOut = Some ''15:50'', status = EarlyLeave\<rparr>] = Some 0"
    by (simp add: same_day_def)
  have e: "\<not> str_lt ''16:10'' (checkOutTime initialSettings)"
    by (simp add: initialSettings_def)
  from duplicate_commits [OF h, of initialSettings "''16:10''"] h e show ?thesis
    by simp
qed

section \<open>The recognition loop\<close>

subsection \<open>Auxiliary facts\<close>

lemma find_id_no: "find (\<lambda>x. id_no x = n) students = Some st \<Longrightarrow> id_no st = n"
  by (induction students) (auto split: if_splits)

lemma recognized_known:
  assumes "find (\<lambda>x. id_no x = n) students = Some st"
  shows "recognized students \<lparr>bestMatch = Known n, now = t\<rparr> s =
     (if cooldown_elapsed (recognitionCooldown s) (id_no st) t
      then startFastAttendance st
             (s\<lparr>recognitionCooldown := (recognitionCooldown s)(id_no st \<mapsto> t)\<rparr>)
      else s)"
  using assms by (simp add: recognized_def)

lemma recognized_within_cooldown:
  assumes "find (\<lambda>x. id_no x = n) students = Some st"
    and "recognitionCooldown s (id_no st) = Some stored" and "stored \<noteq> 0"
    and "t - stored \<le> 8000"
  shows "recognized students \<lparr>bestMatch = Known n, now = t\<rparr> s = s"
  using assms by (simp add: recognized_known cooldown_elapsed_def)

lemma recognized_accepted_cooldown:
  assumes "find (\<lambda>x. id_no x = n) students = Some st"
    and "cooldown_elapsed (recognitionCooldown s) (id_no st) t"
  shows "recognitionCooldown (recognized students \<lparr>bestMatch = Known n, now = t\<rparr> s) (id_no st)
     = Some t"
  using assms by (simp add: recognized_known startFastAttendance_def)

lemma recognized_timers_changed:
  assumes "find (\<lambda>x. id_no x = n) students = Some st"
    and "timers (recognized students \<lparr>bestMatch = Known n, now = t\<rparr> s) \<noteq> timers s"
  shows "cooldown_elapsed (recognitionCooldown s) (id_no st) t \<and> \<not> isProcessing s
    \<and> timers (recognized students \<lparr>bestMatch = Known n, now = t\<rparr> s) = timers s @ [(st, Countdown)]"
  using assms by (auto simp: recognized_known startFastAttendance_def split: if_splits)

lemma startFastAttendance_busy: "isProcessing s \<Longrightarrow> startFastAttendance st s = s"
  by (simp add: startFastAttendance_def)

lemma recognized_busy:
  "isProcessing s \<Longrightarrow>
   isProcessing (recognized students r s) \<and> timers (recognized students r s) = timers s
   \<and> mockAttendance (recognized students r s) = mockAttendance s"
  by (simp add: recognized_def startFastAttendance_def split: match_label.splits option.splits)

lemma fold_recognized_busy:
  "isProcessing s \<Longrightarrow>
   isProcessing (fold (recognized students) ds s)
   \<and> timers (fold (recognized students) ds s) = timers s"
proof (induction ds arbitrary: s)
  case Nil
  then show ?case by simp
next
  case (Cons r ds)
  from Cons.prems have r: "isProcessing (recognized students r s)"
    "timers (recognized students r s) = timers s"
    by (simp_all add: recognized_busy)
  from Cons.IH [OF r(1)] r(2) show ?case by simp
qed

lemma one_commit_startFastAttendance:
  "one_commit s \<Longrightarrow> one_commit (startFastAttendance st s)"
  by (auto simp: one_commit_def startFastAttendance_def)

lemma one_commit_recognized: "one_commit s \<Longrightarrow> one_commit (recognized students r s)"
proof -
  assume a: "one_commit s"
  have upd: "one_commit (s\<lparr>recognitionCooldown := cd\<rparr>)" for cd
    using a by (simp add: one_commit_def)
  show ?thesis
    by (simp add: recognized_def a upd one_commit_startFastAttendance
        split: match_label.splits option.splits)
qed

lemma one_commit_fold_recognized:
  "one_commit s \<Longrightarrow> one_commit (fold (recognized students) ds s)"
  by (induction ds arbitrary: s) (simp_all add: one_commit_recognized)

lemma one_commit_step: "one_commit s \<Longrightarrow> one_commit (step pg ev s)"
proof (cases ev)
  case (IntervalFires ready)
  assume "one_commit s"
  with IntervalFires show ?thesis
    by (simp add: tick_begin_def one_commit_def)
next
  case (DetectionResolves ds)
  assume a: "one_commit s"
  then have "one_commit (s\<lparr>detectionsInFlight := detectionsInFlight s - 1\<rparr>)"
    by (simp add: one_commit_def)
  then have "one_commit (tick_resume (mockStudents pg) ds s)"
    unfolding tick_resume_def by (rule one_commit_fold_recognized)
  with a DetectionResolves show ?thesis by simp
next
  case (CountdownElapsed i)
  assume "one_commit s"
  with CountdownElapsed show ?thesis
    by (simp add: one_commit_def)
next
  case (ApiCallRuns i today timeNow)
  assume "one_commit s"
  with ApiCallRuns show ?thesis
    by (simp add: one_commit_def)
next
  case (SettleElapsed i)
  assume "one_commit s"
  with SettleElapsed show ?thesis
    by (auto simp: one_commit_def in_phase_def)
qed

lemma one_commit_run: "one_commit s \<Longrightarrow> one_commit (run pg evs s)"
  unfolding run_def
  by (induction evs arbitrary: s) (simp_all add: one_commit_step)

lemma one_commit_initial: "one_commit (initial_session store)"
  by (simp add: one_commit_def initial_session_def)

lemma find_student1: "find (\<lambda>x. id_no x = 1) [student1, student2] = Some student1"
  by (simp add: student1_def)

lemma find_student2: "find (\<lambda>x. id_no x = 2) [student1, student2] = Some student2"
  by (simp add: student1_def student2_def)

lemma first_recognition:
  "recognized [student1, student2] \<lparr>bestMatch = Known 1, now = 1000\<rparr> (initial_session []) =
     \<lparr>isProcessing = True, recognitionCooldown = (\<lambda>k. None)(1 \<mapsto> 1000), detectionsInFlight = 0,
      timers = [(student1, Countdown)], mockAttendance = []\<rparr>"
proof -
  have "cooldown_elapsed (\<lambda>k. None) (id_no student1) 1000"
    by (simp add: cooldown_elapsed_def)
  then have "recognized [student1, student2] \<lparr>bestMatch = Known 1, now = 1000\<rparr> (initial_session [])
      = startFastAttendance student1
          ((initial_session [])\<lparr>recognitionCooldown := (\<lambda>k. None)(id_no student1 \<mapsto> 1000)\<rparr>)"
    by (simp add: recognized_known [OF find_student1] initial_session_def)
  also have "\<dots> = \<lparr>isProcessing = True, recognitionCooldown = (\<lambda>k. None)(1 \<mapsto> 1000),
      detectionsInFlight = 0, timers = [(student1, Countdown)], mockAttendance = []\<rparr>"
    by (simp add: startFastAttendance_def initial_session_def) (simp add: student1_def)
  finally show ?thesis .
qed

lemma first_tick:
  "run checkin_page [IntervalFires True, DetectionResolves [\<lparr>bestMatch = Known 1, now = 1000\<rparr>]]
     (initial_session []) =
     \<lparr>isProcessing = True, recognitionCooldown = (\<lambda>k. None)(1 \<mapsto> 1000), detectionsInFlight = 0,
      timers = [(student1, Countdown)], mockAttendance = []\<rparr>"
proof -
  have "run checkin_page [IntervalFires True, DetectionResolves [\<lparr>bestMatch = Known 1, now = 1000\<rparr>]]
     (initial_session []) =
     recognized [student1, student2] \<lparr>bestMatch = Known 1, now = 1000\<rparr> (initial_session [])"
    by (simp add: run_def tick_begin_def tick_resume_def checkin_page_def initial_session_def)
  then show ?thesis by (simp only: first_recognition)
qed

subsection \<open>Cooldown\<close>

text \<open>
  Claim C4 (cooldown). \<open>st\<close> is the student the matcher's label \<open>n\<close>
  names. A recognition at \<open>t0\<close> that passes the cooldown test stores \<open>t0\<close>
  as the identity's timestamp. A second recognition of the identity at a time \<open>t\<close>
  with \<open>t - t0 \<le> 8000\<close> leaves the whole session state as it is: no commit is
  started and the timestamp is not touched. In general, with a timestamp
  \<open>stored\<close> for the identity, a recognition within 8000 ms of it changes nothing,
  and a recognition that starts a commit (adds a timer) is strictly more than 8000 ms
  after it. The timestamps are \<open>Date.now()\<close> readings, and the statement is for
  a stored reading other than \<open>0\<close>, the reading of the epoch instant itself: the
  source's test \<open>!cooldown[key]\<close> takes a stored \<open>0\<close> for a missing entry.
\<close>

theorem cooldown_blocks_second_recognition:
  assumes "find (\<lambda>x. id_no x = n) students = Some st"
  shows "(cooldown_elapsed (recognitionCooldown s) (id_no st) t0 \<longrightarrow>
            recognitionCooldown (recognized students \<lparr>bestMatch = Known n, now = t0\<rparr> s) (id_no st)
              = Some t0)
    \<and> (cooldown_elapsed (recognitionCooldown s) (id_no st) t0 \<and> t0 \<noteq> 0 \<and> t - t0 \<le> 8000 \<longrightarrow>
          recognized students \<lparr>bestMatch = Known n, now = t\<rparr>
              (recognized students \<lparr>bestMatch = Known n, now = t0\<rparr> s)
            = recognized students \<lparr>bestMatch = Known n, now = t0\<rparr> s)
    \<and> (recognitionCooldown s (id_no st) = Some stored \<and> stored \<noteq> 0 \<and> t - stored \<le> 8000 \<longrightarrow>
          recognized students \<lparr>bestMatch = Known n, now = t\<rparr> s = s)
    \<and> (recognitionCooldown s (id_no st) = Some stored \<and> stored \<noteq> 0
         \<and> timers (recognized students \<lparr>bestMatch = Known n, now = t\<rparr> s) \<noteq> timers s \<longrightarrow>
          8000 < t - stored)"
proof (intro conjI impI)
  assume "cooldown_elapsed (recognitionCooldown s) (id_no st) t0"
  with assms show "recognitionCooldown
      (recognized students \<lparr>bestMatch = Known n, now = t0\<rparr> s) (id_no st) = Some t0"
    by (rule recognized_accepted_cooldown)
next
  assume a: "cooldown_elapsed (recognitionCooldown s) (id_no st) t0 \<and> t0 \<noteq> 0 \<and> t - t0 \<le> 8000"
  with assms have "recognitionCooldown
      (recognized students \<lparr>bestMatch = Known n, now = t0\<rparr> s) (id_no st) = Some t0"
    by (simp add: recognized_accepted_cooldown)
  with assms a show "recognized students \<lparr>bestMatch = Known n, now = t\<rparr>
        (recognized students \<lparr>bestMatch = Known n, now = t0\<rparr> s)
      = recognized students \<lparr>bestMatch = Known n, now = t0\<rparr> s"
    by (simp add: recognized_within_cooldown)
next
  assume "recognitionCooldown s (id_no st) = Some stored \<and> stored \<noteq> 0 \<and> t - stored \<le> 8000"
  with assms show "recognized students \<lparr>bestMatch = Known n, now = t\<rparr> s = s"
    by (simp add: recognized_within_cooldown)
next
  assume a: "recognitionCooldown s (id_no st) = Some stored \<and> stored \<noteq> 0
     \<and> timers (recognized students \<lparr>bestMatch = Known n, now = t\<rparr> s) \<noteq> timers s"
  with assms have "cooldown_elapsed (recognitionCooldown s) (id_no st) t"
    by (simp add: recognized_timers_changed)
  with a show "8000 < t - stored"
    by (simp add: cooldown_elapsed_def)
qed

theorem cooldown_blocks_second_recognition_witness:
  "find (\<lambda>x. id_no x = 1) [student1, student2] = Some student1
   \<and> cooldown_elapsed (recognitionCooldown (initial_session [])) (id_no student1) 1000
   \<and> (1000::int) \<noteq> 0 \<and> (9000::int) - 1000 \<le> 8000
   \<and> timers (recognized [student1, student2] \<lparr>bestMatch = Known 1, now = 1000\<rparr>
               (initial_session [])) = [(student1, Countdown)]
   \<and> recognized [student1, student2] \<lparr>bestMatch = Known 1, now = 9000\<rparr>
        (recognized [student1, student2] \<lparr>bestMatch = Known 1, now = 1000\<rparr> (initial_session []))
      = recognized [student1, student2] \<lparr>bestMatch = Known 1, now = 1000\<rparr> (initial_session [])"
proof -
  have f: "find (\<lambda>x. id_no x = 1) [student1, student2] = Some student1"
    by (simp add: student1_def)
  have c: "cooldown_elapsed (recognitionCooldown (initial_session [])) (id_no student1) 1000"
    by (simp add: cooldown_elapsed_def initial_session_def)
  have t: "timers (recognized [student1, student2] \<lparr>bestMatch = Known 1, now = 1000\<rparr>
               (initial_session [])) = [(student1, Countdown)]"
    by (simp add: first_recognition)
  from cooldown_blocks_second_recognition [OF f, of "initial_session []" 1000 9000] c
  have "recognized [student1, student2] \<lparr>bestMatch = Known 1, now = 9000\<rparr>
        (recognized [student1, student2] \<lparr>bestMatch = Known 1, now = 1000\<rparr> (initial_session []))
      = recognized [student1, student2] \<lparr>bestMatch = Known 1, now = 1000\<rparr> (initial_session [])"
    by simp
  with f c t show ?thesis by simp
qed

subsection \<open>The processing flag\<close>

text \<open>
  Claim C5 (one commit in flight). \<open>timers\<close> lists the commits under way, from
  the call of \<open>startFastAttendance\<close> that locks the candidate to the timer that
  releases the flag after the settle delay. In every state the session reaches from
  its initial state, by any sequence of callbacks in any order, at most one commit is
  under way, and the flag is set exactly while one is. While the flag is set,
  \<open>startFastAttendance\<close> does nothing, and neither the handling of a recognized
  face nor a whole interval callback, whatever it detects, adds a commit: a second
  identity is dropped, not queued.
\<close>

theorem single_commit_in_flight:
  "length (timers (run pg evs (initial_session store))) \<le> 1
   \<and> (isProcessing (run pg evs (initial_session store))
        \<longleftrightarrow> timers (run pg evs (initial_session store)) \<noteq> [])
   \<and> (isProcessing s \<longrightarrow>
         startFastAttendance st s = s
         \<and> timers (recognized students r s) = timers s
         \<and> timers (step pg (IntervalFires ready) s) = timers s
         \<and> timers (step pg (DetectionResolves ds) s) = timers s)"
proof -
  have "one_commit (run pg evs (initial_session store))"
    using one_commit_initial by (rule one_commit_run)
  then have inv: "length (timers (run pg evs (initial_session store))) \<le> 1"
    "isProcessing (run pg evs (initial_session store))
        \<longleftrightarrow> timers (run pg evs (initial_session store)) \<noteq> []"
    by (simp_all add: one_commit_def)
  have busy: "startFastAttendance st s = s
         \<and> timers (recognized students r s) = timers s
         \<and> timers (step pg (IntervalFires ready) s) = timers s
         \<and> timers (step pg (DetectionResolves ds) s) = timers s" if p: "isProcessing s"
  proof -
    from p have "isProcessing (s\<lparr>detectionsInFlight := detectionsInFlight s - 1\<rparr>)"
      by simp
    from fold_recognized_busy [OF this, of "mockStudents pg" ds]
    have "timers (tick_resume (mockStudents pg) ds s) = timers s"
      by (simp add: tick_resume_def)
    with p show ?thesis
      by (simp add: startFastAttendance_busy recognized_busy tick_begin_def)
  qed
  from inv busy show ?thesis by blast
qed

theorem single_commit_in_flight_witness:
  "isProcessing (run checkin_page
       [IntervalFires True, DetectionResolves [\<lparr>bestMatch = Known 1, now = 1000\<rparr>]]
       (initial_session []))
   \<and> timers (run checkin_page
       [IntervalFires True, DetectionResolves [\<lparr>bestMatch = Known 1, now = 1000\<rparr>]]
       (initial_session [])) = [(student1, Countdown)]
   \<and> timers (recognized [student1, student2] \<lparr>bestMatch = Known 2, now = 1200\<rparr>
       (run checkin_page
         [IntervalFires True, DetectionResolves [\<lparr>bestMatch = Known 1, now = 1000\<rparr>]]
         (initial_session []))) = [(student1, Countdown)]"
proof -
  have f: "find (\<lambda>x. id_no x = 1) [student1, student2] = Some student1"
    by (simp add: student1_def)
  have r: "run checkin_page
       [IntervalFires True, DetectionResolves [\<lparr>bestMatch = Known 1, now = 1000\<rparr>]]
       (initial_session []) =
     \<lparr>isProcessing = True, recognitionCooldown = (\<lambda>k. None)(1 \<mapsto> 1000), detectionsInFlight = 0,
      timers = [(student1, Countdown)], mockAttendance = []\<rparr>"
    by (rule first_tick)
  have p: "isProcessing (run checkin_page
       [IntervalFires True, DetectionResolves [\<lparr>bestMatch = Known 1, now = 1000\<rparr>]]
       (initial_session []))"
    by (simp add: r)
  from single_commit_in_flight
    [of checkin_page "[]" "[]"
      "run checkin_page
         [IntervalFires True, DetectionResolves [\<lparr>bestMatch = Known 1, now = 1000\<rparr>]]
         (initial_session [])"
      student2 "[student1, student2]" "\<lparr>bestMatch = Known 2, now = 1200\<rparr>" True "[]"] p
  have "timers (recognized [student1, student2] \<lparr>bestMatch = Known 2, now = 1200\<rparr>
       (run checkin_page
         [IntervalFires True, DetectionResolves [\<lparr>bestMatch = Known 1, now = 1000\<rparr>]]
         (initial_session []))) =
     timers (run checkin_page
         [IntervalFires True, DetectionResolves [\<lparr>bestMatch = Known 1, now = 1000\<rparr>]]
         (initial_session []))"
    by blast
  with p show ?thesis by (simp add: r)
qed

text \<open>
  Claim C10 (cooldown reset without a commit). When an identity passes the cooldown
  test while the processing flag is set, the only change is that its timestamp becomes
  the current time: no commit is started. Afterwards, in any state that still holds
  that timestamp, also one with the flag released, a recognition of the identity within
  8000 ms of it changes nothing, so it starts no commit (for a timestamp other than
  \<open>0\<close>, as in C4).
\<close>

theorem cooldown_reset_while_processing:
  assumes "find (\<lambda>x. id_no x = n) students = Some st"
    and "isProcessing s"
    and "cooldown_elapsed (recognitionCooldown s) (id_no st) t"
  shows "recognized students \<lparr>bestMatch = Known n, now = t\<rparr> s =
           s\<lparr>recognitionCooldown := (recognitionCooldown s)(id_no st \<mapsto> t)\<rparr>
    \<and> timers (recognized students \<lparr>bestMatch = Known n, now = t\<rparr> s) = timers s
    \<and> recognitionCooldown (recognized students \<lparr>bestMatch = Known n, now = t\<rparr> s) (id_no st) = Some t
    \<and> (\<forall>s' t'. recognitionCooldown s' (id_no st) = Some t \<and> t \<noteq> 0 \<and> t' - t \<le> 8000 \<longrightarrow>
          recognized students \<lparr>bestMatch = Known n, now = t'\<rparr> s' = s')"
proof -
  from assms have eq: "recognized students \<lparr>bestMatch = Known n, now = t\<rparr> s =
           s\<lparr>recognitionCooldown := (recognitionCooldown s)(id_no st \<mapsto> t)\<rparr>"
    by (simp add: recognized_known startFastAttendance_def)
  have later: "recognized students \<lparr>bestMatch = Known n, now = t'\<rparr> s' = s'"
    if "recognitionCooldown s' (id_no st) = Some t \<and> t \<noteq> 0 \<and> t' - t \<le> 8000" for s' t'
    using assms(1) that by (simp add: recognized_within_cooldown)
  from eq later show ?thesis by simp
qed

theorem cooldown_reset_while_processing_witness:
  "isProcessing (recognized [student1, student2] \<lparr>bestMatch = Known 1, now = 1000\<rparr>
                   (initial_session []))
   \<and> cooldown_elapsed
        (recognitionCooldown (recognized [student1, student2] \<lparr>bestMatch = Known 1, now = 1000\<rparr>
                                (initial_session [])))
        (id_no student2) 1100
   \<and> timers (recognized [student1, student2] \<lparr>bestMatch = Known 2, now = 1100\<rparr>
        (recognized [student1, student2] \<lparr>bestMatch = Known 1, now = 1000\<rparr> (initial_session [])))
      = [(student1, Countdown)]
   \<and> recognitionCooldown (recognized [student1, student2] \<lparr>bestMatch = Known 2, now = 1100\<rparr>
        (recognized [student1, student2] \<lparr>bestMatch = Known 1, now = 1000\<rparr> (initial_session [])))
        (id_no student2) = Some 1100
   \<and> recognized [student1, student2] \<lparr>bestMatch = Known 2, now = 9000\<rparr>
        \<lparr>isProcessing = False, recognitionCooldown = (\<lambda>k. None)(1 \<mapsto> 1000, id_no student2 \<mapsto> 1100),
         detectionsInFlight = 0, timers = [], mockAttendance = []\<rparr>
      = \<lparr>isProcessing = False, recognitionCooldown = (\<lambda>k. None)(1 \<mapsto> 1000, id_no student2 \<mapsto> 1100),
         detectionsInFlight = 0, timers = [], mockAttendance = []\<rparr>"
proof -
  have p: "isProcessing (recognized [student1, student2] \<lparr>bestMatch = Known 1, now = 1000\<rparr>
                   (initial_session []))"
    by (simp add: first_recognition)
  have c: "cooldown_elapsed
        (recognitionCooldown (recognized [student1, student2] \<lparr>bestMatch = Known 1, now = 1000\<rparr>
                                (initial_session [])))
        (id_no student2) 1100"
  proof -
    have "id_no student2 = 2" by (simp add: student2_def)
    then show ?thesis by (simp add: first_recognition cooldown_elapsed_def)
  qed
  note w = cooldown_reset_while_processing [OF find_student2 p c]
  from w have t: "timers (recognized [student1, student2] \<lparr>bestMatch = Known 2, now = 1100\<rparr>
        (recognized [student1, student2] \<lparr>bestMatch = Known 1, now = 1000\<rparr> (initial_session [])))
      = [(student1, Countdown)]"
    by (simp add: first_recognition)
  from w have r: "recognitionCooldown (recognized [student1, student2] \<lparr>bestMatch = Known 2, now = 1100\<rparr>
        (recognized [student1, student2] \<lparr>bestMatch = Known 1, now = 1000\<rparr> (initial_session [])))
        (id_no student2) = Some 1100"
    by blast
  from w have "\<forall>s' t'. recognitionCooldown s' (id_no student2) = Some 1100 \<and> (1100::int) \<noteq> 0
        \<and> t' - 1100 \<le> 8000 \<longrightarrow>
          recognized [student1, student2] \<lparr>bestMatch = Known 2, now = t'\<rparr> s' = s'"
    by blast
  then have l: "recognized [student1, student2] \<lparr>bestMatch = Known 2, now = 9000\<rparr>
        \<lparr>isProcessing = False, recognitionCooldown = (\<lambda>k. None)(1 \<mapsto> 1000, id_no student2 \<mapsto> 1100),
         detectionsInFlight = 0, timers = [], mockAttendance = []\<rparr>
      = \<lparr>isProcessing = False, recognitionCooldown = (\<lambda>k. None)(1 \<mapsto> 1000, id_no student2 \<mapsto> 1100),
         detectionsInFlight = 0, timers = [], mockAttendance = []\<rparr>"
    by simp
  from p c t r l show ?thesis by blast
qed

subsection \<open>Detection calls\<close>

text \<open>
  Claim C9 (no overlapping detection calls), as stated, fails. The interval fires, the
  callback passes its guard and awaits \<open>detectAllFaces\<close>: one call is outstanding
  and the processing flag is not set, since only \<open>startFastAttendance\<close> sets it.
  The interval fires again before the call resolves: the guard passes again and a second
  call is issued while the first is outstanding.
\<close>

theorem overlapping_detection_counterexample:
  "detectionsInFlight (run checkin_page [IntervalFires True] (initial_session [])) = 1
   \<and> \<not> isProcessing (run checkin_page [IntervalFires True] (initial_session []))
   \<and> detectionsInFlight
        (run checkin_page [IntervalFires True, IntervalFires True] (initial_session [])) = 2"
  by (simp add: run_def tick_begin_def initial_session_def)

text \<open>
  Claim C9, amended. What the guard of the interval callback tests is the processing
  flag of a commit under way: while that flag is set, and when the page is not ready,
  a tick issues no detection call and changes nothing. An outstanding detection call
  does not set the flag, and a tick of a ready page with the flag clear issues a
  detection call, however many are outstanding.
\<close>

theorem detection_guard_is_commit_flag:
  "(isProcessing s \<longrightarrow> step pg (IntervalFires ready) s = s)
   \<and> (\<not> ready \<longrightarrow> step pg (IntervalFires ready) s = s)
   \<and> (ready \<and> \<not> isProcessing s \<longrightarrow>
        step pg (IntervalFires ready) s = s\<lparr>detectionsInFlight := Suc (detectionsInFlight s)\<rparr>)
   \<and> isProcessing (step pg (IntervalFires ready) s) = isProcessing s"
  by (simp add: tick_begin_def)

theorem detection_guard_is_commit_flag_witness:
  "isProcessing (run checkin_page
       [IntervalFires True, DetectionResolves [\<lparr>bestMatch = Known 1, now = 1000\<rparr>]]
       (initial_session []))
   \<and> step checkin_page (IntervalFires True)
       (run checkin_page
         [IntervalFires True, DetectionResolves [\<lparr>bestMatch = Known 1, now = 1000\<rparr>]]
         (initial_session []))
     = run checkin_page
         [IntervalFires True, DetectionResolves [\<lparr>bestMatch = Known 1, now = 1000\<rparr>]]
         (initial_session [])
   \<and> \<not> isProcessing (run checkin_page [IntervalFires True] (initial_session []))
   \<and> detectionsInFlight (step checkin_page (IntervalFires True)
        (run checkin_page [IntervalFires True] (initial_session []))) = 2"
proof -
  have f: "find (\<lambda>x. id_no x = 1) [student1, student2] = Some student1"
    by (simp add: student1_def)
  have p: "isProcessing (run checkin_page
       [IntervalFires True, DetectionResolves [\<lparr>bestMatch = Known 1, now = 1000\<rparr>]]
       (initial_session []))"
    by (simp add: first_tick)
  have q: "\<not> isProcessing (run checkin_page [IntervalFires True] (initial_session []))"
    and d: "detectionsInFlight (run checkin_page [IntervalFires True] (initial_session [])) = 1"
    by (simp_all add: run_def tick_begin_def initial_session_def)
  from detection_guard_is_commit_flag
    [of "run checkin_page
         [IntervalFires True, DetectionResolves [\<lparr>bestMatch = Known 1, now = 1000\<rparr>]]
         (initial_session [])" checkin_page True] p
  have a: "step checkin_page (IntervalFires True)
       (run checkin_page
         [IntervalFires True, DetectionResolves [\<lparr>bestMatch = Known 1, now = 1000\<rparr>]]
         (initial_session []))
     = run checkin_page
         [IntervalFires True, DetectionResolves [\<lparr>bestMatch = Known 1, now = 1000\<rparr>]]
         (initial_session [])"
    by blast
  from detection_guard_is_commit_flag
    [of "run checkin_page [IntervalFires True] (initial_session [])" checkin_page True] q
  have "step checkin_page (IntervalFires True)
        (run checkin_page [IntervalFires True] (initial_session []))
      = (run checkin_page [IntervalFires True] (initial_session []))
          \<lparr>detectionsInFlight :=
             Suc (detectionsInFlight (run checkin_page [IntervalFires True] (initial_session [])))\<rparr>"
    by blast
  then have b: "detectionsInFlight (step checkin_page (IntervalFires True)
        (run checkin_page [IntervalFires True] (initial_session []))) = 2"
    by (simp add: d)
  from p a q b show ?thesis by blast
qed

section \<open>The registration quality gate\<close>

subsection \<open>Rounding to binary64\<close>

text \<open>
  The exponent function finds the binade of its argument, and a real that is within
  half a spacing of one multiple of the spacing of its binade rounds to that multiple.
  The second fact evaluates every rounding below.
\<close>

lemma binade_unique:
  fixes x :: real
  assumes "2 powi a \<le> x" "x < 2 powi (a + 1)" "2 powi b \<le> x" "x < 2 powi (b + 1)"
  shows "a = b"
proof -
  have mono: "i < j + 1" if "(2::real) powi i < 2 powi (j + 1)" for i j :: int
  proof (rule ccontr)
    assume "\<not> i < j + 1"
    then have "j + 1 \<le> i" by simp
    then have "(2::real) powi (j + 1) \<le> 2 powi i"
      by (rule power_int_increasing) simp
    with that show False by simp
  qed
  from assms(1,4) have "(2::real) powi a < 2 powi (b + 1)" by simp
  then have "a < b + 1" by (rule mono)
  moreover from assms(3,2) have "(2::real) powi b < 2 powi (a + 1)" by simp
  then have "b < a + 1" by (rule mono)
  ultimately show ?thesis by simp
qed

lemma exponent_bounds:
  assumes "0 < x"
  shows "2 powi exponent x \<le> x \<and> x < 2 powi (exponent x + 1)"
proof (cases "1 \<le> x")
  case True
  define n where "n = \<lfloor>x\<rfloor>"
  define k where "k = bitlen n"
  from True have n: "0 < n" by (simp add: n_def)
  from bitlen_bounds [OF n] have b: "2 ^ nat (k - 1) \<le> n" "n < 2 ^ nat k"
    by (simp_all add: k_def)
  from n have k: "1 \<le> k"
    using bitlen_eq_zero_iff [of n] bitlen_nonneg [of n] by (simp add: k_def)
  have e: "exponent x = k - 1"
    using True by (simp add: exponent_def k_def n_def)
  have "real_of_int (2 ^ nat (k - 1)) \<le> real_of_int n"
    using b(1) by (simp only: of_int_le_iff)
  also have "real_of_int n \<le> x" by (simp add: n_def)
  finally have lo: "2 powi (k - 1) \<le> x"
    using k by (simp add: power_int_def)
  from b(2) have "n + 1 \<le> 2 ^ nat k" by simp
  then have "real_of_int (n + 1) \<le> real_of_int (2 ^ nat k)"
    by (simp only: of_int_le_iff)
  moreover have "x < real_of_int (n + 1)"
    by (simp add: n_def)
  ultimately have "x < real_of_int (2 ^ nat k)" by (rule less_le_trans[rotated])
  then have hi: "x < 2 powi k"
    using k by (simp add: power_int_def)
  from lo hi e show ?thesis by simp
next
  case False
  define m where "m = \<lceil>1 / x\<rceil>"
  define k where "k = bitlen (m - 1)"
  from False assms have inv: "1 < 1 / x" by simp
  then have m: "0 < m - 1"
    by (simp add: m_def less_ceiling_iff)
  from bitlen_bounds [OF m] have b: "2 ^ nat (k - 1) \<le> m - 1" "m - 1 < 2 ^ nat k"
    by (simp_all add: k_def)
  from m have k: "1 \<le> k"
    using bitlen_eq_zero_iff [of "m - 1"] bitlen_nonneg [of "m - 1"] by (simp add: k_def)
  have e: "exponent x = - k"
    using False by (simp add: exponent_def k_def m_def)
  have c1: "1 / x \<le> real_of_int m" by (simp add: m_def)
  have c2: "real_of_int (m - 1) < 1 / x"
    by (simp add: m_def) linarith
  from b(2) have "m \<le> 2 ^ nat k" by simp
  then have "real_of_int m \<le> real_of_int (2 ^ nat k)"
    by (simp only: of_int_le_iff)
  with c1 have "1 / x \<le> real_of_int (2 ^ nat k)" by (rule order_trans)
  then have "1 / x \<le> 2 ^ nat k" by simp
  with assms have "1 / 2 ^ nat k \<le> x"
    by (simp add: field_simps)
  then have lo: "2 powi (- k) \<le> x"
    using k by (simp add: power_int_def field_simps)
  have "real_of_int (2 ^ nat (k - 1)) \<le> real_of_int (m - 1)"
    using b(1) by (simp only: of_int_le_iff)
  then have "real_of_int (2 ^ nat (k - 1)) < 1 / x" using c2 by (rule le_less_trans)
  then have "2 ^ nat (k - 1) < 1 / x" by simp
  with assms have "x < 1 / 2 ^ nat (k - 1)"
    by (simp add: field_simps)
  moreover have "(2::real) powi (- k + 1) = 1 / 2 ^ nat (k - 1)"
  proof -
    have "- k + 1 = - (k - 1)" by simp
    then have "(2::real) powi (- k + 1) = 2 powi (- (k - 1))" by simp
    also have "\<dots> = 1 / 2 powi (k - 1)" by (rule power_int_minus_divide)
    also have "\<dots> = 1 / 2 ^ nat (k - 1)" using k by (simp add: power_int_def)
    finally show ?thesis .
  qed
  ultimately have hi: "x < 2 powi (- k + 1)" by simp
  from lo hi e show ?thesis by simp
qed

lemma exponent_eq:
  fixes x :: real
  assumes "2 powi e \<le> x" "x < 2 powi (e + 1)"
  shows "exponent x = e"
proof -
  have "0 < (2::real) powi e" by simp
  then have "0 < x" using assms(1) by (rule less_le_trans)
  from exponent_bounds [OF this] assms show ?thesis
    by (auto intro: binade_unique)
qed

lemma round_ties_even_eq:
  assumes "\<bar>x - of_int n\<bar> < 1 / 2"
  shows "round_ties_even x = n"
proof (cases "of_int n \<le> x")
  case True
  with assms have "\<lfloor>x\<rfloor> = n" by (simp add: floor_eq_iff) 
  with assms True show ?thesis
    by (simp add: round_ties_even_def)
next
  case False
  with assms have f: "\<lfloor>x\<rfloor> = n - 1" by (simp add: floor_eq_iff) 
  from False assms have "1 / 2 < x - of_int (n - 1)" by simp
  with f show ?thesis
    by (simp add: round_ties_even_def)
qed

lemma round_ties_even_near: "\<bar>x - of_int (round_ties_even x)\<bar> \<le> 1 / 2"
proof -
  have "of_int \<lfloor>x\<rfloor> \<le> x" "x < of_int \<lfloor>x\<rfloor> + 1" by linarith+
  then show ?thesis
    by (auto simp: round_ties_even_def Let_def)
qed

lemma round64_eq:
  fixes x :: real
  assumes "2 powi e \<le> x" "x < 2 powi (e + 1)" "- 1022 \<le> e"
    and "\<bar>x / 2 powi (e - 52) - of_int n\<bar> < 1 / 2"
    and "real_of_int n * 2 powi (e - 52) < 2 powi 1024"
  shows "round64 x = Finite (of_int n * 2 powi (e - 52))"
    and "round64 (- x) = Finite (- (of_int n * 2 powi (e - 52)))"
proof -
  have "0 < (2::real) powi e" by simp
  then have pos: "0 < x" using assms(1) by (rule less_le_trans)
  from assms(1,2) have ex: "exponent x = e" by (rule exponent_eq)
  with assms(3) have m: "max (exponent x) (- 1022) = e" by simp
  from assms(4) have r: "round_ties_even (x / 2 powi (e - 52)) = n"
    by (rule round_ties_even_eq)
  from pos m r assms(5) show "round64 x = Finite (of_int n * 2 powi (e - 52))"
    by (simp add: round64_def Let_def)
  from pos m r assms(5) show "round64 (- x) = Finite (- (of_int n * 2 powi (e - 52)))"
    by (simp add: round64_def Let_def)
qed

text \<open>A finite result lies within half a spacing of the exact value.\<close>

lemma round64_near:
  assumes "round64 x = Finite y"
  shows "\<bar>y - x\<bar> \<le> 2 powi (max (exponent \<bar>x\<bar>) (- 1022) - 52) / 2"
proof (cases "x = 0")
  case True
  with assms show ?thesis by (simp add: round64_def)
next
  case False
  define q :: real where "q = 2 powi (max (exponent \<bar>x\<bar>) (- 1022) - 52)"
  define n where "n = round_ties_even (\<bar>x\<bar> / q)"
  have q: "0 < q" by (simp add: q_def)
  from assms False have y: "y = (if 0 < x then of_int n * q else - (of_int n * q))"
    by (simp add: round64_def Let_def q_def n_def split: if_splits)
  have "\<bar>\<bar>x\<bar> / q - of_int n\<bar> \<le> 1 / 2"
    unfolding n_def by (rule round_ties_even_near)
  then have "\<bar>\<bar>x\<bar> / q - of_int n\<bar> * q \<le> 1 / 2 * q"
    using q by (simp only: mult_le_cancel_right_pos)
  moreover have "\<bar>\<bar>x\<bar> / q - of_int n\<bar> * q = \<bar>\<bar>x\<bar> - of_int n * q\<bar>"
    using q by (simp add: abs_mult [symmetric] field_simps del: abs_mult)
  ultimately have "\<bar>\<bar>x\<bar> - of_int n * q\<bar> \<le> q / 2" by simp
  with y False have "\<bar>y - x\<bar> \<le> q / 2"
    by (auto simp: abs_if split: if_splits)
  then show ?thesis by (simp add: q_def)
qed

subsection \<open>Sample roundings and ratios\<close>

lemma round64_lower: "round64 0.05 = Finite (3602879701896397 / 2 ^ 56)"
  using round64_eq(1) [of "- 5" "0.05" 7205759403792794] by simp

lemma round64_upper: "round64 0.4 = Finite (3602879701896397 / 2 ^ 53)"
  using round64_eq(1) [of "- 2" "0.4" 7205759403792794] by simp

lemma round64_128: "round64 128 = Finite 128"
  using round64_eq(1) [of 7 128 "2 ^ 52"] by simp

lemma round64_120e: "round64 (8444249301319681 / 2 ^ 46) = Finite (8444249301319681 / 2 ^ 46)"
  using round64_eq(1) [of 6 "8444249301319681 / 2 ^ 46" 8444249301319681] by simp

lemma round64_prod1: "round64 (8444249301319681 / 2 ^ 46 * 128) = Finite (8444249301319681 / 2 ^ 39)"
  using round64_eq(1) [of 13 "8444249301319681 / 2 ^ 46 * 128" 8444249301319681] by simp

lemma round64_640: "round64 640 = Finite 640"
  using round64_eq(1) [of 9 640 "5 * 2 ^ 50"] by simp

lemma round64_480: "round64 480 = Finite 480"
  using round64_eq(1) [of 8 480 "15 * 2 ^ 49"] by simp

lemma round64_frame1: "round64 (640 * 480) = Finite 307200"
  using round64_eq(1) [of 18 "640 * 480" "75 * 2 ^ 46"] by simp

lemma round64_quot1: "round64 (8444249301319681 / 2 ^ 39 / 307200) = Finite (3602879701896397 / 2 ^ 56)"
  using round64_eq(1) [of "- 5" "8444249301319681 / 2 ^ 39 / 307200" 7205759403792794] by simp

lemma ratio1:
  "faceSizeRatio \<lparr>boxWidth = 8444249301319681 / 2 ^ 46, boxHeight = 128, descriptor = ds\<rparr> 640 480
     = Finite (3602879701896397 / 2 ^ 56)"
proof -
  have "faceSizeRatio \<lparr>boxWidth = 8444249301319681 / 2 ^ 46, boxHeight = 128, descriptor = ds\<rparr> 640 480
      = js_div (js_mul (round64 (8444249301319681 / 2 ^ 46)) (round64 128))
               (js_mul (round64 640) (round64 480))"
    by (simp only: faceSizeRatio_def face.simps of_nat_numeral)
  also have "\<dots> = js_div (round64 (8444249301319681 / 2 ^ 46 * 128)) (round64 (640 * 480))"
    by (simp only: round64_120e round64_128 round64_640 round64_480 js_mul.simps)
  also have "\<dots> = js_div (Finite (8444249301319681 / 2 ^ 39)) (Finite 307200)"
    by (simp only: round64_prod1 round64_frame1)
  also have "\<dots> = round64 (8444249301319681 / 2 ^ 39 / 307200)"
    by simp
  also have "\<dots> = Finite (3602879701896397 / 2 ^ 56)"
    by (rule round64_quot1)
  finally show ?thesis .
qed

lemma round64_w2: "round64 (1297829808359383 / 2 ^ 42) = Finite (1297829808359383 / 2 ^ 42)"
  using round64_eq(1) [of 8 "1297829808359383 / 2 ^ 42" 5191319233437532] by simp

lemma round64_h2: "round64 (3687634991739595 / 2 ^ 43) = Finite (3687634991739595 / 2 ^ 43)"
  using round64_eq(1) [of 8 "3687634991739595 / 2 ^ 43" 7375269983479190] by simp

lemma round64_prod2:
  "round64 (1297829808359383 / 2 ^ 42 * (3687634991739595 / 2 ^ 43)) = Finite (8501506369336115 / 2 ^ 36)"
  using round64_eq(1) [of 16 "1297829808359383 / 2 ^ 42 * (3687634991739595 / 2 ^ 43)"
    8501506369336115] by simp

lemma round64_643: "round64 643 = Finite 643"
  using round64_eq(1) [of 9 643 5655887813279744] by simp

lemma round64_481: "round64 481 = Finite 481"
  using round64_eq(1) [of 8 481 8461841487364096] by simp

lemma round64_frame2: "round64 (643 * 481) = Finite 309283"
  using round64_eq(1) [of 18 "643 * 481" 5313441480835072] by simp

lemma round64_quot2:
  "round64 (8501506369336115 / 2 ^ 36 / 309283) = Finite (7205759403792793 / 2 ^ 54)"
  using round64_eq(1) [of "- 2" "8501506369336115 / 2 ^ 36 / 309283" 7205759403792793] by simp

lemma ratio2:
  "faceSizeRatio \<lparr>boxWidth = 1297829808359383 / 2 ^ 42, boxHeight = 3687634991739595 / 2 ^ 43,
                   descriptor = ds\<rparr> 643 481
     = Finite (7205759403792793 / 2 ^ 54)"
proof -
  have "faceSizeRatio \<lparr>boxWidth = 1297829808359383 / 2 ^ 42, boxHeight = 3687634991739595 / 2 ^ 43,
                   descriptor = ds\<rparr> 643 481
      = js_div (js_mul (round64 (1297829808359383 / 2 ^ 42)) (round64 (3687634991739595 / 2 ^ 43)))
               (js_mul (round64 643) (round64 481))"
    by (simp only: faceSizeRatio_def face.simps of_nat_numeral)
  also have "\<dots> = js_div (round64 (1297829808359383 / 2 ^ 42 * (3687634991739595 / 2 ^ 43)))
                         (round64 (643 * 481))"
    by (simp only: round64_w2 round64_h2 round64_643 round64_481 js_mul.simps)
  also have "\<dots> = js_div (Finite (8501506369336115 / 2 ^ 36)) (Finite 309283)"
    by (simp only: round64_prod2 round64_frame2)
  also have "\<dots> = round64 (8501506369336115 / 2 ^ 36 / 309283)"
    by simp
  also have "\<dots> = Finite (7205759403792793 / 2 ^ 54)"
    by (rule round64_quot2)
  finally show ?thesis .
qed

lemma round64_240: "round64 240 = Finite 240"
  using round64_eq(1) [of 7 240 8444249301319680] by simp

lemma round64_256: "round64 256 = Finite 256"
  using round64_eq(1) [of 8 256 4503599627370496] by simp

lemma round64_prod3: "round64 (240 * 256) = Finite 61440"
  using round64_eq(1) [of 15 "240 * 256" 8444249301319680] by simp

lemma round64_quot3: "round64 (61440 / 307200) = Finite (3602879701896397 / 2 ^ 54)"
  using round64_eq(1) [of "- 3" "61440 / 307200" 7205759403792794] by simp

lemma ratio3:
  "faceSizeRatio \<lparr>boxWidth = 240, boxHeight = 256, descriptor = ds\<rparr> 640 480
     = Finite (3602879701896397 / 2 ^ 54)"
proof -
  have "faceSizeRatio \<lparr>boxWidth = 240, boxHeight = 256, descriptor = ds\<rparr> 640 480
      = js_div (js_mul (round64 240) (round64 256)) (js_mul (round64 640) (round64 480))"
    by (simp only: faceSizeRatio_def face.simps of_nat_numeral)
  also have "\<dots> = js_div (round64 (240 * 256)) (round64 (640 * 480))"
    by (simp only: round64_240 round64_256 round64_640 round64_480 js_mul.simps)
  also have "\<dots> = js_div (Finite 61440) (Finite 307200)"
    by (simp only: round64_prod3 round64_frame1)
  also have "\<dots> = round64 (61440 / 307200)"
    by simp
  also have "\<dots> = Finite (3602879701896397 / 2 ^ 54)"
    by (rule round64_quot3)
  finally show ?thesis .
qed

lemma round64_120: "round64 120 = Finite 120"
  using round64_eq(1) [of 6 120 8444249301319680] by simp

lemma round64_prod4: "round64 (120 * 128) = Finite 15360"
  using round64_eq(1) [of 13 "120 * 128" 8444249301319680] by simp

lemma round64_quot4: "round64 (15360 / 307200) = Finite (3602879701896397 / 2 ^ 56)"
  using round64_eq(1) [of "- 5" "15360 / 307200" 7205759403792794] by simp

lemma ratio4:
  "faceSizeRatio \<lparr>boxWidth = 120, boxHeight = 128, descriptor = ds\<rparr> 640 480
     = Finite (3602879701896397 / 2 ^ 56)"
proof -
  have "faceSizeRatio \<lparr>boxWidth = 120, boxHeight = 128, descriptor = ds\<rparr> 640 480
      = js_div (js_mul (round64 120) (round64 128)) (js_mul (round64 640) (round64 480))"
    by (simp only: faceSizeRatio_def face.simps of_nat_numeral)
  also have "\<dots> = js_div (round64 (120 * 128)) (round64 (640 * 480))"
    by (simp only: round64_120 round64_128 round64_640 round64_480 js_mul.simps)
  also have "\<dots> = js_div (Finite 15360) (Finite 307200)"
    by (simp only: round64_prod4 round64_frame1)
  also have "\<dots> = round64 (15360 / 307200)"
    by simp
  also have "\<dots> = Finite (3602879701896397 / 2 ^ 56)"
    by (rule round64_quot4)
  finally show ?thesis .
qed

lemma js_le_not_gt: "js_le a b \<Longrightarrow> \<not> js_gt a b"
  by (cases a; cases b) (auto simp: js_le_def js_gt_def)

lemma js_ge_not_lt: "js_ge a b \<Longrightarrow> \<not> js_lt a b"
  by (cases a; cases b) (auto simp: js_le_def js_ge_def)

lemma faceDetection_tick_one:
  "faceDetection_tick clientWidth clientHeight [d] s =
     (if js_gt (faceSizeRatio d clientWidth clientHeight) (round64 0.05)
         \<and> js_lt (faceSizeRatio d clientWidth clientHeight) (round64 0.4)
      then s\<lparr>gate_status := GoodQuality, faceDescriptor := Some (descriptor d),
             showCaptureButton := True\<rparr>
      else s\<lparr>faceDescriptor := None, showCaptureButton := False,
             gate_status := (if js_le (faceSizeRatio d clientWidth clientHeight) (round64 0.05)
                             then TooSmall else TooLarge)\<rparr>)"
  by (simp add: faceDetection_tick_def Let_def)

lemma faceDetection_tick_not_one:
  "length ds \<noteq> 1 \<Longrightarrow>
   faceDetection_tick clientWidth clientHeight ds s =
     s\<lparr>faceDescriptor := None, showCaptureButton := False,
       gate_status := (if 1 < length ds then MultipleFaces else NoFace)\<rparr>"
proof (cases ds)
  case Nil
  then show ?thesis by (simp add: faceDetection_tick_def)
next
  case (Cons d ds')
  assume "length ds \<noteq> 1"
  with Cons obtain e es where "ds' = e # es"
    by (cases ds') auto
  with Cons show ?thesis by (simp add: faceDetection_tick_def)
qed

lemma ratio_compare:
  assumes "faceSizeRatio d clientWidth clientHeight = Finite r"
  shows "js_gt (faceSizeRatio d clientWidth clientHeight) (round64 0.05)
           = (3602879701896397 / 2 ^ 56 < r)"
    and "js_lt (faceSizeRatio d clientWidth clientHeight) (round64 0.4)
           = (r < 3602879701896397 / 2 ^ 53)"
    and "js_le (faceSizeRatio d clientWidth clientHeight) (round64 0.05)
           = (r \<le> 3602879701896397 / 2 ^ 56)"
proof -
  show "js_gt (faceSizeRatio d clientWidth clientHeight) (round64 0.05)
           = (3602879701896397 / 2 ^ 56 < r)"
    unfolding assms round64_lower by (simp add: js_gt_def)
  show "js_lt (faceSizeRatio d clientWidth clientHeight) (round64 0.4)
           = (r < 3602879701896397 / 2 ^ 53)"
    unfolding assms round64_upper by simp
  show "js_le (faceSizeRatio d clientWidth clientHeight) (round64 0.05)
           = (r \<le> 3602879701896397 / 2 ^ 56)"
    unfolding assms round64_lower by (auto simp: js_le_def)
qed

lemma tick_capture:
  assumes "faceSizeRatio d clientWidth clientHeight = Finite r"
  shows "showCaptureButton (faceDetection_tick clientWidth clientHeight [d] s)
           = (3602879701896397 / 2 ^ 56 < r \<and> r < 3602879701896397 / 2 ^ 53)"
  unfolding faceDetection_tick_one ratio_compare [OF assms] by simp

subsection \<open>The bounds of the gate\<close>

text \<open>
  Claim C6 (bounds of the quality gate), as stated for the quotient
  \<open>(boxWidth * boxHeight) / (frameWidth * frameHeight)\<close> and the bounds 0.05 and
  0.4 themselves, fails at the bounds, because the code computes the ratio in binary64
  and compares it with the doubles of the two literals. In a 640 by 480 frame, one face
  with the box 120.00000000000001 by 128 (the width is the double
  \<open>8444249301319681 / 2 ^ 46\<close>) has a quotient strictly between 0.05 and 0.4, and
  the tick does not enable capture: the computed ratio is the double of 0.05. In a 643
  by 481 frame, one face with the box 295.0923336264584 by 419.2355608824522 has a
  quotient of at least 0.4, and the tick enables capture: the computed ratio is the
  double just below that of 0.4.
\<close>

theorem quality_gate_exact_ratio_counterexample:
  "0.05 < boxWidth \<lparr>boxWidth = 8444249301319681 / 2 ^ 46, boxHeight = 128, descriptor = [0.1, 0.2]\<rparr>
          * boxHeight \<lparr>boxWidth = 8444249301319681 / 2 ^ 46, boxHeight = 128, descriptor = [0.1, 0.2]\<rparr>
          / real ((640::nat) * 480)
   \<and> boxWidth \<lparr>boxWidth = 8444249301319681 / 2 ^ 46, boxHeight = 128, descriptor = [0.1, 0.2]\<rparr>
          * boxHeight \<lparr>boxWidth = 8444249301319681 / 2 ^ 46, boxHeight = 128, descriptor = [0.1, 0.2]\<rparr>
          / real ((640::nat) * 480) < 0.4
   \<and> showCaptureButton (faceDetection_tick 640 480
        [\<lparr>boxWidth = 8444249301319681 / 2 ^ 46, boxHeight = 128, descriptor = [0.1, 0.2]\<rparr>]
        \<lparr>gate_status = NoFace, faceDescriptor = None, showCaptureButton = False\<rparr>) = False
   \<and> 0.4 \<le> boxWidth \<lparr>boxWidth = 1297829808359383 / 2 ^ 42,
                         boxHeight = 3687634991739595 / 2 ^ 43, descriptor = [0.1, 0.2]\<rparr>
          * boxHeight \<lparr>boxWidth = 1297829808359383 / 2 ^ 42,
                        boxHeight = 3687634991739595 / 2 ^ 43, descriptor = [0.1, 0.2]\<rparr>
          / real ((643::nat) * 481)
   \<and> showCaptureButton (faceDetection_tick 643 481
        [\<lparr>boxWidth = 1297829808359383 / 2 ^ 42, boxHeight = 3687634991739595 / 2 ^ 43,
          descriptor = [0.1, 0.2]\<rparr>]
        \<lparr>gate_status = NoFace, faceDescriptor = None, showCaptureButton = False\<rparr>) = True"
proof -
  have a: "showCaptureButton (faceDetection_tick 640 480
        [\<lparr>boxWidth = 8444249301319681 / 2 ^ 46, boxHeight = 128, descriptor = [0.1, 0.2]\<rparr>]
        \<lparr>gate_status = NoFace, faceDescriptor = None, showCaptureButton = False\<rparr>) = False"
    using tick_capture [OF ratio1] by simp
  have b: "showCaptureButton (faceDetection_tick 643 481
        [\<lparr>boxWidth = 1297829808359383 / 2 ^ 42, boxHeight = 3687634991739595 / 2 ^ 43,
          descriptor = [0.1, 0.2]\<rparr>]
        \<lparr>gate_status = NoFace, faceDescriptor = None, showCaptureButton = False\<rparr>) = True"
    using tick_capture [OF ratio2] by simp
  from a b show ?thesis by simp
qed

text \<open>
  Claim C6, amended. The ratio is the number the code computes: the product of the box
  sizes and the product of the frame sizes, each rounded to a double, and their quotient
  rounded again. The bounds are the doubles the literals 0.05 and 0.4 denote,
  \<open>3602879701896397 / 2 ^ 56\<close> and \<open>3602879701896397 / 2 ^ 53\<close>. With exactly
  one face: a computed ratio at most the lower bound or at least the upper bound
  disables the capture control and clears the stored descriptor; a computed ratio
  strictly between the bounds enables it and stores the descriptor of the face. With no
  face or more than one the control is disabled and the descriptor cleared.
\<close>

theorem quality_gate_computed_ratio:
  "(js_le (faceSizeRatio d clientWidth clientHeight) (round64 0.05)
      \<or> js_ge (faceSizeRatio d clientWidth clientHeight) (round64 0.4) \<longrightarrow>
      showCaptureButton (faceDetection_tick clientWidth clientHeight [d] s) = False
      \<and> faceDescriptor (faceDetection_tick clientWidth clientHeight [d] s) = None)
   \<and> (js_gt (faceSizeRatio d clientWidth clientHeight) (round64 0.05)
      \<and> js_lt (faceSizeRatio d clientWidth clientHeight) (round64 0.4) \<longrightarrow>
      showCaptureButton (faceDetection_tick clientWidth clientHeight [d] s) = True
      \<and> faceDescriptor (faceDetection_tick clientWidth clientHeight [d] s) = Some (descriptor d))
   \<and> (length ds \<noteq> 1 \<longrightarrow>
      showCaptureButton (faceDetection_tick clientWidth clientHeight ds s) = False
      \<and> faceDescriptor (faceDetection_tick clientWidth clientHeight ds s) = None)
   \<and> round64 0.05 = Finite (3602879701896397 / 2 ^ 56)
   \<and> round64 0.4 = Finite (3602879701896397 / 2 ^ 53)"
proof (intro conjI impI)
  assume "js_le (faceSizeRatio d clientWidth clientHeight) (round64 0.05)
      \<or> js_ge (faceSizeRatio d clientWidth clientHeight) (round64 0.4)"
  then have n: "\<not> (js_gt (faceSizeRatio d clientWidth clientHeight) (round64 0.05)
      \<and> js_lt (faceSizeRatio d clientWidth clientHeight) (round64 0.4))"
    by (auto dest: js_le_not_gt js_ge_not_lt)
  from n show "showCaptureButton (faceDetection_tick clientWidth clientHeight [d] s) = False"
    by (simp add: faceDetection_tick_one)
  from n show "faceDescriptor (faceDetection_tick clientWidth clientHeight [d] s) = None"
    by (simp add: faceDetection_tick_one)
next
  assume a: "js_gt (faceSizeRatio d clientWidth clientHeight) (round64 0.05)
      \<and> js_lt (faceSizeRatio d clientWidth clientHeight) (round64 0.4)"
  from a show "showCaptureButton (faceDetection_tick clientWidth clientHeight [d] s) = True"
    by (simp add: faceDetection_tick_one)
  from a show "faceDescriptor (faceDetection_tick clientWidth clientHeight [d] s)
      = Some (descriptor d)"
    by (simp add: faceDetection_tick_one)
next
  assume "length ds \<noteq> 1"
  then show "showCaptureButton (faceDetection_tick clientWidth clientHeight ds s) = False"
    by (simp add: faceDetection_tick_not_one)
next
  assume "length ds \<noteq> 1"
  then show "faceDescriptor (faceDetection_tick clientWidth clientHeight ds s) = None"
    by (simp add: faceDetection_tick_not_one)
next
  show "round64 0.05 = Finite (3602879701896397 / 2 ^ 56)"
    by (rule round64_lower)
next
  show "round64 0.4 = Finite (3602879701896397 / 2 ^ 53)"
    by (rule round64_upper)
qed

theorem quality_gate_computed_ratio_witness:
  "js_le (faceSizeRatio \<lparr>boxWidth = 120, boxHeight = 128, descriptor = [0.1, 0.2]\<rparr> 640 480)
         (round64 0.05)
   \<and> showCaptureButton (faceDetection_tick 640 480
        [\<lparr>boxWidth = 120, boxHeight = 128, descriptor = [0.1, 0.2]\<rparr>]
        \<lparr>gate_status = GoodQuality, faceDescriptor = Some [0.3], showCaptureButton = True\<rparr>) = False
   \<and> faceDescriptor (faceDetection_tick 640 480
        [\<lparr>boxWidth = 120, boxHeight = 128, descriptor = [0.1, 0.2]\<rparr>]
        \<lparr>gate_status = GoodQuality, faceDescriptor = Some [0.3], showCaptureButton = True\<rparr>) = None
   \<and> js_gt (faceSizeRatio \<lparr>boxWidth = 240, boxHeight = 256, descriptor = [0.1, 0.2]\<rparr> 640 480)
           (round64 0.05)
   \<and> js_lt (faceSizeRatio \<lparr>boxWidth = 240, boxHeight = 256, descriptor = [0.1, 0.2]\<rparr> 640 480)
           (round64 0.4)
   \<and> showCaptureButton (faceDetection_tick 640 480
        [\<lparr>boxWidth = 240, boxHeight = 256, descriptor = [0.1, 0.2]\<rparr>]
        \<lparr>gate_status = NoFace, faceDescriptor = None, showCaptureButton = False\<rparr>) = True
   \<and> faceDescriptor (faceDetection_tick 640 480
        [\<lparr>boxWidth = 240, boxHeight = 256, descriptor = [0.1, 0.2]\<rparr>]
        \<lparr>gate_status = NoFace, faceDescriptor = None, showCaptureButton = False\<rparr>) = Some [0.1, 0.2]
   \<and> length ([] :: face list) \<noteq> 1
   \<and> showCaptureButton (faceDetection_tick 640 480 []
        \<lparr>gate_status = GoodQuality, faceDescriptor = Some [0.3], showCaptureButton = True\<rparr>) = False
   \<and> faceDescriptor (faceDetection_tick 640 480 []
        \<lparr>gate_status = GoodQuality, faceDescriptor = Some [0.3], showCaptureButton = True\<rparr>) = None"
proof -
  have small: "js_le (faceSizeRatio \<lparr>boxWidth = 120, boxHeight = 128, descriptor = [0.1, 0.2]\<rparr> 640 480)
         (round64 0.05)"
    using ratio_compare(3) [OF ratio4] by simp
  have good: "js_gt (faceSizeRatio \<lparr>boxWidth = 240, boxHeight = 256, descriptor = [0.1, 0.2]\<rparr> 640 480)
           (round64 0.05)
      \<and> js_lt (faceSizeRatio \<lparr>boxWidth = 240, boxHeight = 256, descriptor = [0.1, 0.2]\<rparr> 640 480)
           (round64 0.4)"
    using ratio_compare(1,2) [OF ratio3] by simp
  have e: "length ([] :: face list) \<noteq> 1" by simp
  note a = quality_gate_computed_ratio
    [of "\<lparr>boxWidth = 120, boxHeight = 128, descriptor = [0.1, 0.2]\<rparr>" 640 480
      "\<lparr>gate_status = GoodQuality, faceDescriptor = Some [0.3], showCaptureButton = True\<rparr>" "[]",
     THEN conjunct1, THEN mp, OF disjI1 [OF small]]
  note b = quality_gate_computed_ratio
    [of "\<lparr>boxWidth = 240, boxHeight = 256, descriptor = [0.1, 0.2]\<rparr>" 640 480
      "\<lparr>gate_status = NoFace, faceDescriptor = None, showCaptureButton = False\<rparr>" "[]",
     THEN conjunct2, THEN conjunct1, THEN mp, OF good]
  note c = quality_gate_computed_ratio
    [of "\<lparr>boxWidth = 240, boxHeight = 256, descriptor = [0.1, 0.2]\<rparr>" 640 480
      "\<lparr>gate_status = GoodQuality, faceDescriptor = Some [0.3], showCaptureButton = True\<rparr>" "[]",
     THEN conjunct2, THEN conjunct2, THEN conjunct1, THEN mp, OF e]
  from b have b': "showCaptureButton (faceDetection_tick 640 480
        [\<lparr>boxWidth = 240, boxHeight = 256, descriptor = [0.1, 0.2]\<rparr>]
        \<lparr>gate_status = NoFace, faceDescriptor = None, showCaptureButton = False\<rparr>) = True
   \<and> faceDescriptor (faceDetection_tick 640 480
        [\<lparr>boxWidth = 240, boxHeight = 256, descriptor = [0.1, 0.2]\<rparr>]
        \<lparr>gate_status = NoFace, faceDescriptor = None, showCaptureButton = False\<rparr>) = Some [0.1, 0.2]"
    by simp
  from small a good b' e c show ?thesis by blast
qed

end
